theory Spec2Isabelle
  imports Complex_Main
begin

section \<open>Categorical DQN (06.categorical\_dqn.ipynb): replay buffer, projection, agent\<close>

text \<open>
  Every tensor is a list (or list of lists) of \<^typ>\<open>real\<close>. In the categorical
  projection, where rounding decides which atom an index names, every float32 and
  float64 operation is followed by its rounding (\<open>fl32\<close>, \<open>fl64\<close> below, round to
  nearest, ties to even; infinities and NaN apart). The replay buffer, the network and
  \<open>torch.linspace\<close> are kept over the reals. Python exceptions are values of the type
  \<open>error\<close>, and every fallible operation returns \<open>error + 'a\<close> with \<open>Inl\<close> the
  exception. Random draws are explicit arguments of the operations that consume them.
\<close>

datatype error = IndexError | ValueError | ZeroDivisionError | TypeError | RuntimeError

type_synonym obs = "real list"

subsection \<open>ReplayBuffer\<close>

text \<open>
  The five parallel numpy arrays are five lists. Actions and done flags are written into
  float32 arrays, so the buffer holds them as reals (\<open>done\<close> as 0 or 1).
\<close>

record ReplayBuffer =
  obs_buf :: "obs list"
  next_obs_buf :: "obs list"
  acts_buf :: "real list"
  rews_buf :: "real list"
  done_buf :: "real list"
  max_size :: nat
  rb_batch_size :: int
  ptr :: nat
  size :: nat

text \<open>\<open>np.zeros\<close> rejects a negative dimension with a ValueError.\<close>

definition ReplayBuffer_init :: "nat \<Rightarrow> int \<Rightarrow> int \<Rightarrow> error + ReplayBuffer" where
  "ReplayBuffer_init obs_dim sz bsz =
     (if sz < 0 then Inl ValueError
      else Inr \<lparr> obs_buf = replicate (nat sz) (replicate obs_dim 0),
                 next_obs_buf = replicate (nat sz) (replicate obs_dim 0),
                 acts_buf = replicate (nat sz) 0,
                 rews_buf = replicate (nat sz) 0,
                 done_buf = replicate (nat sz) 0,
                 max_size = nat sz, rb_batch_size = bsz, ptr = 0, size = 0 \<rparr>)"

text \<open>A transition as \<open>store\<close> receives it: obs, act, rew, next\_obs, done.\<close>

type_synonym transition = "obs \<times> int \<times> real \<times> obs \<times> bool"

text \<open>
  A numpy row assignment \<open>buf[i] = v\<close> for a one-dimensional \<open>v\<close>: \<open>v\<close> has the width
  of the row, or one entry that is broadcast along it; any other width is a ValueError.
\<close>

definition assign_row :: "real list \<Rightarrow> real list \<Rightarrow> error + real list" where
  "assign_row row v =
     (if length v = length row then Inr v
      else if length v = 1 then Inr (replicate (length row) (hd v))
      else Inl ValueError)"

text \<open>
  \<open>store\<close>: five indexed assignments at \<open>ptr\<close>, in the order of the source
  (IndexError when \<open>ptr\<close> is not a valid index, ValueError when an observation does not
  fit its row), then the cursor advances modulo \<open>max_size\<close> (ZeroDivisionError when
  that is 0) and \<open>size\<close> grows up to \<open>max_size\<close>.
\<close>

definition store :: "ReplayBuffer \<Rightarrow> transition \<Rightarrow> error + ReplayBuffer" where
  "store rb t =
     (case t of (ob, act, rew, next_ob, dn) \<Rightarrow>
        if \<not> ptr rb < length (obs_buf rb) then Inl IndexError
        else case assign_row (obs_buf rb ! ptr rb) ob of Inl e \<Rightarrow> Inl e | Inr ob_row \<Rightarrow>
        if \<not> ptr rb < length (next_obs_buf rb) then Inl IndexError
        else case assign_row (next_obs_buf rb ! ptr rb) next_ob of Inl e \<Rightarrow> Inl e
        | Inr next_ob_row \<Rightarrow>
        if \<not> (ptr rb < length (acts_buf rb) \<and> ptr rb < length (rews_buf rb) \<and>
               ptr rb < length (done_buf rb))
        then Inl IndexError
        else if max_size rb = 0 then Inl ZeroDivisionError
        else Inr (rb\<lparr> obs_buf := (obs_buf rb)[ptr rb := ob_row],
                      next_obs_buf := (next_obs_buf rb)[ptr rb := next_ob_row],
                      acts_buf := (acts_buf rb)[ptr rb := of_int act],
                      rews_buf := (rews_buf rb)[ptr rb := rew],
                      done_buf := (done_buf rb)[ptr rb := (if dn then 1 else 0)],
                      ptr := (ptr rb + 1) mod max_size rb,
                      size := min (size rb + 1) (max_size rb) \<rparr>))"

definition len :: "ReplayBuffer \<Rightarrow> nat" where
  "len rb = size rb"

text \<open>A sequence of \<open>store\<close> calls; the first exception ends it.\<close>

fun store_all :: "ReplayBuffer \<Rightarrow> transition list \<Rightarrow> error + ReplayBuffer" where
  "store_all rb [] = Inr rb"
| "store_all rb (t # ts) =
     (case store rb t of Inl e \<Rightarrow> Inl e | Inr rb' \<Rightarrow> store_all rb' ts)"

text \<open>The content of slot \<open>j\<close> across the five arrays, and a transition as the arrays hold it.\<close>

definition slot :: "ReplayBuffer \<Rightarrow> nat \<Rightarrow> obs \<times> real \<times> real \<times> obs \<times> real" where
  "slot rb j = (obs_buf rb ! j, acts_buf rb ! j, rews_buf rb ! j, next_obs_buf rb ! j, done_buf rb ! j)"

definition stored :: "transition \<Rightarrow> obs \<times> real \<times> real \<times> obs \<times> real" where
  "stored t = (case t of (ob, act, rew, next_ob, dn) \<Rightarrow>
                 (ob, of_int act, rew, next_ob, if dn then 1 else 0))"

text \<open>The shape every buffer built by \<open>ReplayBuffer_init\<close> with a positive capacity has and keeps.\<close>

definition rb_wf :: "ReplayBuffer \<Rightarrow> bool" where
  "rb_wf rb \<longleftrightarrow>
     0 < max_size rb \<and> ptr rb < max_size rb \<and> size rb \<le> max_size rb \<and>
     length (obs_buf rb) = max_size rb \<and> length (next_obs_buf rb) = max_size rb \<and>
     length (acts_buf rb) = max_size rb \<and> length (rews_buf rb) = max_size rb \<and>
     length (done_buf rb) = max_size rb"

text \<open>
  The rows of the two observation arrays have width \<open>w\<close> (the \<open>obs_dim\<close> of the
  constructor), and a transition whose observations have that width.
\<close>

definition rb_rows :: "nat \<Rightarrow> ReplayBuffer \<Rightarrow> bool" where
  "rb_rows w rb \<longleftrightarrow> (\<forall>row \<in> set (obs_buf rb). length row = w) \<and>
                   (\<forall>row \<in> set (next_obs_buf rb). length row = w)"

definition fits :: "nat \<Rightarrow> transition \<Rightarrow> bool" where
  "fits w t = (case t of (ob, act, rew, next_ob, dn) \<Rightarrow> length ob = w \<and> length next_ob = w)"

text \<open>
  \<open>sample_batch\<close>: \<open>np.random.choice(size, size=batch_size, replace=False)\<close> takes the
  first \<open>batch_size\<close> entries of a random permutation of \<open>range(size)\<close>; the permutation
  drawn is the argument \<open>perm\<close>. It raises ValueError for a negative sample size and for
  a sample larger than the population. The five arrays are then indexed by \<open>idxs\<close>.
\<close>

record batch =
  b_obs :: "obs list"
  b_next_obs :: "obs list"
  b_acts :: "real list"
  b_rews :: "real list"
  b_done :: "real list"

definition random_choice :: "nat \<Rightarrow> int \<Rightarrow> nat list \<Rightarrow> error + nat list" where
  "random_choice n k perm =
     (if k < 0 then Inl ValueError
      else if int n < k then Inl ValueError
      else Inr (take (nat k) perm))"

definition take_rows :: "'a list \<Rightarrow> nat list \<Rightarrow> error + 'a list" where
  "take_rows xs idxs =
     (if \<forall>i \<in> set idxs. i < length xs then Inr (map (\<lambda>i. xs ! i) idxs) else Inl IndexError)"

definition sample_batch :: "ReplayBuffer \<Rightarrow> nat list \<Rightarrow> error + (nat list \<times> batch)" where
  "sample_batch rb perm =
     (case random_choice (size rb) (rb_batch_size rb) perm of
        Inl e \<Rightarrow> Inl e
      | Inr idxs \<Rightarrow>
         (case (take_rows (obs_buf rb) idxs, take_rows (next_obs_buf rb) idxs,
                take_rows (acts_buf rb) idxs, take_rows (rews_buf rb) idxs,
                take_rows (done_buf rb) idxs) of
            (Inr a, Inr b, Inr c, Inr d, Inr e) \<Rightarrow>
               Inr (idxs, \<lparr> b_obs = a, b_next_obs = b, b_acts = c, b_rews = d, b_done = e \<rparr>)
          | _ \<Rightarrow> Inl IndexError))"

subsection \<open>Floating-point rounding\<close>

text \<open>
  IEEE 754 binary rounding of a real to precision \<open>p\<close> (24 bits for float32, 53 for
  float64), to nearest with ties to even: \<open>expo x\<close> is the exponent \<open>e\<close> with
  \<open>2^e \<le> |x| < 2^(e+1)\<close>, the spacing of the representable numbers around \<open>x\<close> is
  \<open>2^(e - p + 1)\<close> and not below \<open>2^emin\<close> (the subnormal range), and \<open>x\<close> is rounded
  to a multiple of it. Overflow to infinity is not modelled.
\<close>

fun bit_length :: "nat \<Rightarrow> nat" where
  "bit_length n = (if n = 0 then 0 else Suc (bit_length (n div 2)))"

definition expo :: "real \<Rightarrow> int" where
  "expo x = (if 1 \<le> \<bar>x\<bar> then int (bit_length (nat \<lfloor>\<bar>x\<bar>\<rfloor>)) - 1
             else - int (bit_length (nat (\<lceil>1 / \<bar>x\<bar>\<rceil> - 1))))"

definition pow2 :: "int \<Rightarrow> real" where
  "pow2 e = (if 0 \<le> e then 2 ^ nat e else 1 / 2 ^ nat (- e))"

definition round_even :: "real \<Rightarrow> int" where
  "round_even x =
     (let f = \<lfloor>x\<rfloor>; d = x - of_int f
      in if d < 1 / 2 then f else if 1 / 2 < d then f + 1 else if even f then f else f + 1)"

definition fl :: "nat \<Rightarrow> int \<Rightarrow> real \<Rightarrow> real" where
  "fl p emin x =
     (if x = 0 then 0
      else let u = pow2 (max (expo x - int p + 1) emin) in of_int (round_even (x / u)) * u)"

definition fl32 :: "real \<Rightarrow> real" where
  "fl32 x = fl 24 (- 149) x"

definition fl64 :: "real \<Rightarrow> real" where
  "fl64 x = fl 53 (- 1074) x"

subsection \<open>Tensor helpers\<close>

text \<open>
  \<open>torch.linspace(start, end, steps)\<close>: \<open>steps\<close> points from \<open>start\<close> in equal
  increments of \<open>(end - start) / (steps - 1)\<close>; one step gives \<open>[start]\<close>, a negative
  number of steps is a RuntimeError.
\<close>

definition linspace :: "real \<Rightarrow> real \<Rightarrow> int \<Rightarrow> error + real list" where
  "linspace start stop steps =
     (if steps < 0 then Inl RuntimeError
      else if steps = 1 then Inr [start]
      else Inr (map (\<lambda>i. start + real i * ((stop - start) / real_of_int (steps - 1)))
                    [0..<nat steps]))"

text \<open>\<open>.long()\<close> truncates towards zero.\<close>

definition long :: "real \<Rightarrow> int" where
  "long x = (if 0 \<le> x then \<lfloor>x\<rfloor> else \<lceil>x\<rceil>)"

text \<open>\<open>clamp(min=lo, max=hi)\<close>: the lower bound is applied first, then the upper one.\<close>

definition clamp :: "real \<Rightarrow> real \<Rightarrow> real \<Rightarrow> real" where
  "clamp x lo hi = min (max x lo) hi"

text \<open>
  \<open>acc.index_add_(0, index, source)\<close> on flat float32 tensors:
  \<open>acc[index[j]] += source[j]\<close> for each \<open>j\<close> in turn; an index outside
  \<open>[0, len(acc))\<close> is an IndexError, index and source of different lengths a RuntimeError.
\<close>

fun index_add :: "real list \<Rightarrow> int list \<Rightarrow> real list \<Rightarrow> error + real list" where
  "index_add acc [] [] = Inr acc"
| "index_add acc (i # is) (v # vs) =
     (if 0 \<le> i \<and> nat i < length acc
      then index_add (acc[nat i := fl32 (acc ! nat i + v)]) is vs
      else Inl IndexError)"
| "index_add acc _ _ = Inl RuntimeError"

text \<open>\<open>t.view(-1)\<close> of a matrix, and the matrix of \<open>n\<close> rows of width \<open>w\<close> that a flat tensor is a view of.\<close>

definition flatten :: "'a list list \<Rightarrow> 'a list" where
  "flatten rows = concat rows"

definition unflatten :: "nat \<Rightarrow> nat \<Rightarrow> 'a list \<Rightarrow> 'a list list" where
  "unflatten n w xs = map (\<lambda>k. take w (drop (k * w) xs)) [0..<n]"

text \<open>First index of the largest entry (\<open>argmax\<close>); an empty tensor has none.\<close>

fun argmax_aux :: "nat \<Rightarrow> real \<Rightarrow> nat \<Rightarrow> real list \<Rightarrow> nat" where
  "argmax_aux best bv i [] = best"
| "argmax_aux best bv i (x # xs) =
     (if bv < x then argmax_aux i x (i + 1) xs else argmax_aux best bv (i + 1) xs)"

definition argmax :: "real list \<Rightarrow> error + nat" where
  "argmax xs = (case xs of [] \<Rightarrow> Inl RuntimeError | x # rest \<Rightarrow> Inr (argmax_aux 0 x 1 rest))"

text \<open>Running a fallible function over a list, stopping at the first exception.\<close>

fun mapE :: "('a \<Rightarrow> error + 'b) \<Rightarrow> 'a list \<Rightarrow> error + 'b list" where
  "mapE f [] = Inr []"
| "mapE f (x # xs) =
     (case f x of Inl e \<Rightarrow> Inl e
      | Inr y \<Rightarrow> (case mapE f xs of Inl e \<Rightarrow> Inl e | Inr ys \<Rightarrow> Inr (y # ys)))"

subsection \<open>Categorical projection (the no-grad block of \<open>_compute_dqn_loss\<close>)\<close>

text \<open>
  The configuration values the projection reads from the agent.
\<close>

record proj_cfg =
  c_v_min :: real
  c_v_max :: real
  c_atom_size :: int
  c_gamma :: real
  c_support :: "real list"
  c_batch_size :: int

text \<open>
  \<open>delta_z = float(v_max - v_min) / (atom_size - 1)\<close>: Python (float64) subtraction and
  division, which raises on 0.
\<close>

definition delta_z :: "proj_cfg \<Rightarrow> error + real" where
  "delta_z c = (if c_atom_size c - 1 = 0 then Inl ZeroDivisionError
                else Inr (fl64 (fl64 (c_v_max c - c_v_min c) / real_of_int (c_atom_size c - 1))))"

text \<open>
  One row of \<open>t_z\<close>: \<open>reward + (1 - done) * self.gamma * self.support\<close>, then
  \<open>clamp(min=self.v_min, max=self.v_max)\<close>. The tensors are float32 and the Python
  scalars are cast to float32 where they meet one.
\<close>

definition t_z_row :: "proj_cfg \<Rightarrow> real \<Rightarrow> real \<Rightarrow> real list" where
  "t_z_row c r d =
     map (\<lambda>z. clamp (fl32 (fl32 r + fl32 (fl32 (fl32 (1 - fl32 d) * fl32 (c_gamma c)) * fl32 z)))
                     (fl32 (c_v_min c)) (fl32 (c_v_max c)))
         (c_support c)"

text \<open>\<open>b = (t_z - self.v_min) / delta_z\<close>, a float32 subtraction and a float32 division.\<close>

definition b_row :: "proj_cfg \<Rightarrow> real \<Rightarrow> real \<Rightarrow> real \<Rightarrow> real list" where
  "b_row c dz r d = map (\<lambda>t. fl32 (fl32 (t - fl32 (c_v_min c)) / fl32 dz)) (t_z_row c r d)"

definition l_row :: "proj_cfg \<Rightarrow> real \<Rightarrow> real \<Rightarrow> real \<Rightarrow> int list" where
  "l_row c dz r d = map (\<lambda>b. long (of_int \<lfloor>b\<rfloor>)) (b_row c dz r d)"

definition u_row :: "proj_cfg \<Rightarrow> real \<Rightarrow> real \<Rightarrow> real \<Rightarrow> int list" where
  "u_row c dz r d = map (\<lambda>b. long (of_int \<lceil>b\<rceil>)) (b_row c dz r d)"

text \<open>
  \<open>offset\<close>: \<open>linspace(0, (batch_size - 1) * atom_size, batch_size).long()\<close>, one entry per
  row, expanded along the atoms.
\<close>

definition offset :: "proj_cfg \<Rightarrow> error + int list" where
  "offset c =
     (case linspace 0 (real_of_int ((c_batch_size c - 1) * c_atom_size c)) (c_batch_size c) of
        Inl e \<Rightarrow> Inl e
      | Inr xs \<Rightarrow> Inr (map long xs))"

text \<open>
  The two sources of the scatter-add for one row: \<open>next_dist * (u.float() - b)\<close> and
  \<open>next_dist * (b - l.float())\<close>.
\<close>

definition src_l :: "proj_cfg \<Rightarrow> real \<Rightarrow> real \<Rightarrow> real \<Rightarrow> real list \<Rightarrow> real list" where
  "src_l c dz r d p =
     map (\<lambda>(pi, (u, b)). fl32 (fl32 pi * fl32 (fl32 (real_of_int u) - b)))
         (zip p (zip (u_row c dz r d) (b_row c dz r d)))"

definition src_u :: "proj_cfg \<Rightarrow> real \<Rightarrow> real \<Rightarrow> real \<Rightarrow> real list \<Rightarrow> real list" where
  "src_u c dz r d p =
     map (\<lambda>(pi, (l, b)). fl32 (fl32 pi * fl32 (b - fl32 (real_of_int l))))
         (zip p (zip (l_row c dz r d) (b_row c dz r d)))"

text \<open>
  The projection. All operands are tensors of shape [batch\_size, atom\_size]; operands of
  other shapes are a RuntimeError. A \<open>delta_z\<close> that is zero in float32 makes \<open>b\<close> NaN or
  infinite, whose integer conversion is no valid index, so the scatter-add of a non-empty
  batch fails. The two \<open>index_add_\<close> calls run on the flat view of \<open>proj_dist\<close>, with the
  flat views of \<open>l + offset\<close>, \<open>u + offset\<close> and of the two sources.
\<close>

definition proj_dist :: "proj_cfg \<Rightarrow> real list \<Rightarrow> real list \<Rightarrow> real list list
                           \<Rightarrow> error + real list list" where
  "proj_dist c reward done next_dist =
     (case delta_z c of Inl e \<Rightarrow> Inl e | Inr dz \<Rightarrow>
      if \<not> (int (length reward) = c_batch_size c \<and> length done = length reward \<and>
             length next_dist = length reward \<and>
             (\<forall>p \<in> set next_dist. length p = length (c_support c)))
      then Inl RuntimeError
      else if fl32 dz = 0 \<and> reward \<noteq> [] \<and> c_support c \<noteq> [] then Inl IndexError
      else
       (case offset c of Inl e \<Rightarrow> Inl e | Inr off \<Rightarrow>
        let rows = zip (zip reward done) (zip next_dist off);
            l_idx = map (\<lambda>((r, d), (p, k)). map (\<lambda>l. l + k) (l_row c dz r d)) rows;
            u_idx = map (\<lambda>((r, d), (p, k)). map (\<lambda>u. u + k) (u_row c dz r d)) rows;
            l_src = map (\<lambda>((r, d), (p, k)). src_l c dz r d p) rows;
            u_src = map (\<lambda>((r, d), (p, k)). src_u c dz r d p) rows;
            zeros = replicate (length next_dist * length (c_support c)) 0
        in (case index_add zeros (flatten l_idx) (flatten l_src) of Inl e \<Rightarrow> Inl e
            | Inr acc1 \<Rightarrow>
              (case index_add acc1 (flatten u_idx) (flatten u_src) of Inl e \<Rightarrow> Inl e
               | Inr acc2 \<Rightarrow>
                   Inr (unflatten (length next_dist) (length (c_support c)) acc2)))))"

subsection \<open>Network\<close>

text \<open>
  The state dict of \<open>nn.Sequential(Linear, ReLU, Linear, ReLU, Linear)\<close>: weight matrix
  (one row per output unit) and bias of each of the three linear layers.
\<close>

type_synonym linear = "real list list \<times> real list"

record state_dict =
  layer0 :: linear
  layer2 :: linear
  layer4 :: linear

record Network =
  n_support :: "real list"
  out_dim :: nat
  n_atom_size :: nat
  n_params :: state_dict

text \<open>A linear layer on one input row; operands whose shapes do not match are a RuntimeError.\<close>

definition Linear :: "linear \<Rightarrow> real list \<Rightarrow> error + real list" where
  "Linear wb x =
     (case wb of (w, bias) \<Rightarrow>
        if length bias = length w \<and> (\<forall>row \<in> set w. length row = length x)
        then Inr (map (\<lambda>(row, b0). sum_list (map (\<lambda>(a, b). a * b) (zip row x)) + b0) (zip w bias))
        else Inl RuntimeError)"

definition ReLU :: "real list \<Rightarrow> real list" where
  "ReLU x = map (\<lambda>v. max 0 v) x"

definition layers :: "state_dict \<Rightarrow> real list \<Rightarrow> error + real list" where
  "layers sd x =
     (case Linear (layer0 sd) x of Inl e \<Rightarrow> Inl e | Inr h0 \<Rightarrow>
      case Linear (layer2 sd) (ReLU h0) of Inl e \<Rightarrow> Inl e | Inr h2 \<Rightarrow>
      Linear (layer4 sd) (ReLU h2))"

definition softmax :: "real list \<Rightarrow> real list" where
  "softmax xs = map (\<lambda>x. exp x / sum_list (map exp xs)) xs"

text \<open>
  \<open>dist\<close> on a batch of observations: the raw scores of each row are viewed as
  \<open>out_dim\<close> groups of \<open>atom_size\<close> (a row of another length, or an empty group shape,
  cannot be viewed so), each group goes through softmax and the floor \<open>1e-3\<close>.
\<close>

definition Network_dist :: "Network \<Rightarrow> obs list \<Rightarrow> error + real list list list" where
  "Network_dist net xs =
     mapE (\<lambda>x. case layers (n_params net) x of Inl e \<Rightarrow> Inl e
               | Inr scores \<Rightarrow>
                   if length scores \<noteq> out_dim net * n_atom_size net \<or> scores = []
                   then Inl RuntimeError
                   else Inr (map (\<lambda>q_atoms. map (\<lambda>v. max v (1 / 1000)) (softmax q_atoms))
                                 (unflatten (out_dim net) (n_atom_size net) scores))) xs"

text \<open>\<open>forward\<close>: \<open>q = torch.sum(dist * self.support, dim=2)\<close>.\<close>

definition Network_forward :: "Network \<Rightarrow> obs list \<Rightarrow> error + real list list" where
  "Network_forward net xs =
     (case Network_dist net xs of Inl e \<Rightarrow> Inl e
      | Inr ds \<Rightarrow>
          Inr (map (\<lambda>per_action.
                      map (\<lambda>d. sum_list (map (\<lambda>(a, b). a * b) (zip d (n_support net)))) per_action)
                   ds))"

subsection \<open>DQNAgent\<close>

text \<open>The entries of the list \<open>self.transition\<close>.\<close>

datatype tval = TObs obs | TAct int | TRew real | TDone bool

record DQNAgent =
  memory :: ReplayBuffer
  batch_size :: int
  epsilon :: real
  epsilon_decay :: real
  max_epsilon :: real
  min_epsilon :: real
  target_update :: int
  gamma :: real
  v_min :: real
  v_max :: real
  atom_size :: int
  support :: "real list"
  dqn :: Network
  dqn_target :: Network
  transition :: "tval list"
  is_test :: bool

text \<open>
  \<open>load_state_dict(other.state_dict())\<close> replaces the parameters and nothing else.
\<close>

definition load_state_dict :: "Network \<Rightarrow> state_dict \<Rightarrow> Network" where
  "load_state_dict net sd = net\<lparr> n_params := sd \<rparr>"

text \<open>
  \<open>__init__\<close>. \<open>obs_dim\<close> and \<open>action_dim\<close> come from the environment; the freshly
  initialised (random) parameters of the two networks are the arguments \<open>sd_online\<close>
  and \<open>sd_target\<close>. The only failures are those of \<open>np.zeros\<close> and \<open>torch.linspace\<close>.
\<close>

definition DQNAgent_init ::
  "nat \<Rightarrow> nat \<Rightarrow> int \<Rightarrow> int \<Rightarrow> int \<Rightarrow> real \<Rightarrow> real \<Rightarrow> real \<Rightarrow> real \<Rightarrow> real \<Rightarrow> real \<Rightarrow> int
     \<Rightarrow> state_dict \<Rightarrow> state_dict \<Rightarrow> error + DQNAgent" where
  "DQNAgent_init obs_dim action_dim memory_size bsz tgt_update eps_decay max_eps min_eps gam
                 vmin vmax atoms sd_online sd_target =
     (case ReplayBuffer_init obs_dim memory_size bsz of Inl e \<Rightarrow> Inl e | Inr mem \<Rightarrow>
      case linspace vmin vmax atoms of Inl e \<Rightarrow> Inl e | Inr sp \<Rightarrow>
      let online = \<lparr> n_support = sp, out_dim = action_dim, n_atom_size = nat atoms,
                      n_params = sd_online \<rparr>;
          target = \<lparr> n_support = sp, out_dim = action_dim, n_atom_size = nat atoms,
                      n_params = sd_target \<rparr>
      in Inr \<lparr> memory = mem, batch_size = bsz, epsilon = max_eps, epsilon_decay = eps_decay,
                max_epsilon = max_eps, min_epsilon = min_eps, target_update = tgt_update,
                gamma = gam, v_min = vmin, v_max = vmax, atom_size = atoms, support = sp,
                dqn = online, dqn_target = load_state_dict target (n_params online),
                transition = [], is_test = False \<rparr>)"

text \<open>
  \<open>select_action\<close>: \<open>rnd\<close> is the draw of \<open>np.random.random()\<close> and \<open>sampled\<close> the
  action \<open>env.action_space.sample()\<close> returns.
\<close>

definition select_action :: "DQNAgent \<Rightarrow> obs \<Rightarrow> real \<Rightarrow> int \<Rightarrow> error + (int \<times> DQNAgent)" where
  "select_action a state rnd sampled =
     (case (if epsilon a > rnd then Inr sampled
            else (case Network_forward (dqn a) [state] of Inl e \<Rightarrow> Inl e
                  | Inr q \<Rightarrow> (case argmax (flatten q) of Inl e \<Rightarrow> Inl e
                              | Inr i \<Rightarrow> Inr (int i)))) of
        Inl e \<Rightarrow> Inl e
      | Inr selected_action \<Rightarrow>
          Inr (selected_action,
               if \<not> is_test a then a\<lparr> transition := [TObs state, TAct selected_action] \<rparr> else a))"

text \<open>
  \<open>step\<close>: \<open>resp\<close> is what \<open>env.step(action)\<close> returns. \<open>store(*self.transition)\<close> is a
  TypeError unless the list has the five entries of a transition.
\<close>

definition step :: "DQNAgent \<Rightarrow> int \<Rightarrow> (obs \<times> real \<times> bool) \<Rightarrow> error + ((obs \<times> real \<times> bool) \<times> DQNAgent)" where
  "step a action resp =
     (case resp of (next_state, reward, done) \<Rightarrow>
        if \<not> is_test a then
          (let a1 = a\<lparr> transition := transition a @ [TRew reward, TObs next_state, TDone done] \<rparr>
           in case transition a1 of
                [TObs ob, TAct act, TRew rew, TObs next_ob, TDone dn] \<Rightarrow>
                   (case store (memory a1) (ob, act, rew, next_ob, dn) of Inl e \<Rightarrow> Inl e
                    | Inr mem \<Rightarrow> Inr (resp, a1\<lparr> memory := mem \<rparr>))
              | _ \<Rightarrow> Inl TypeError)
        else Inr (resp, a))"

definition target_hard_update :: "DQNAgent \<Rightarrow> DQNAgent" where
  "target_hard_update a = a\<lparr> dqn_target := load_state_dict (dqn_target a) (n_params (dqn a)) \<rparr>"

definition agent_cfg :: "DQNAgent \<Rightarrow> proj_cfg" where
  "agent_cfg a = \<lparr> c_v_min = v_min a, c_v_max = v_max a, c_atom_size = atom_size a,
                   c_gamma = gamma a, c_support = support a, c_batch_size = batch_size a \<rparr>"

text \<open>Advanced indexing \<open>t[range(batch_size), idx]\<close>: row \<open>k\<close> of \<open>t\<close> at \<open>idx[k]\<close>.\<close>

definition pick_rows :: "int \<Rightarrow> 'a list list \<Rightarrow> int list \<Rightarrow> error + 'a list" where
  "pick_rows bsz t idx =
     (if bsz < 0 \<or> length idx \<noteq> nat bsz \<or> length t < nat bsz then Inl IndexError
      else mapE (\<lambda>(row, i). if 0 \<le> i \<and> nat i < length row then Inr (row ! nat i)
                             else if i < 0 \<and> nat (- i) \<le> length row
                                  then Inr (row ! (length row - nat (- i)))
                                  else Inl IndexError)
                (zip (take (nat bsz) t) idx))"

text \<open>
  \<open>_compute_dqn_loss\<close>: \<open>delta_z\<close>, then the projected target of the sampled batch and
  the cross-entropy against the online network. (The mean over an empty batch is NaN in
  torch; the division by zero of HOL stands for it.)
\<close>

definition compute_dqn_loss :: "DQNAgent \<Rightarrow> batch \<Rightarrow> error + real" where
  "compute_dqn_loss a samples =
     (case delta_z (agent_cfg a) of Inl e \<Rightarrow> Inl e | Inr dz \<Rightarrow>
      case Network_forward (dqn_target a) (b_next_obs samples) of Inl e \<Rightarrow> Inl e | Inr q \<Rightarrow>
      case mapE argmax q of Inl e \<Rightarrow> Inl e | Inr next_action \<Rightarrow>
      case Network_dist (dqn_target a) (b_next_obs samples) of Inl e \<Rightarrow> Inl e | Inr nd \<Rightarrow>
      case pick_rows (batch_size a) nd (map int next_action) of Inl e \<Rightarrow> Inl e | Inr next_dist \<Rightarrow>
      case proj_dist (agent_cfg a) (b_rews samples) (b_done samples) next_dist of
        Inl e \<Rightarrow> Inl e | Inr pd \<Rightarrow>
      case Network_dist (dqn a) (b_obs samples) of Inl e \<Rightarrow> Inl e | Inr ds \<Rightarrow>
      case pick_rows (batch_size a) ds (map long (b_acts samples)) of Inl e \<Rightarrow> Inl e | Inr picked \<Rightarrow>
      if length picked \<noteq> length pd \<or> (\<exists>(p, q) \<in> set (zip pd picked). length p \<noteq> length q)
      then Inl RuntimeError
      else
        let row_sums = map (\<lambda>(p, q). sum_list (map (\<lambda>(x, y). x * ln y) (zip p q))) (zip pd picked)
        in Inr (- (sum_list row_sums / real (length row_sums))))"

text \<open>
  \<open>update_model\<close>: sample, compute the loss, one optimizer step. The parameters the
  optimizer leaves in the online network are the argument \<open>new_params\<close>.
\<close>

definition update_model :: "DQNAgent \<Rightarrow> nat list \<Rightarrow> state_dict \<Rightarrow> error + (real \<times> DQNAgent)" where
  "update_model a perm new_params =
     (case sample_batch (memory a) perm of Inl e \<Rightarrow> Inl e | Inr (idxs, samples) \<Rightarrow>
      case compute_dqn_loss a samples of Inl e \<Rightarrow> Inl e | Inr loss \<Rightarrow>
      Inr (loss, a\<lparr> dqn := load_state_dict (dqn a) new_params \<rparr>))"

subsection \<open>The training loop\<close>

text \<open>What one iteration of the loop in \<open>train\<close> receives from outside the agent.\<close>

record frame_input =
  f_rnd :: real
  f_sampled :: int
  f_resp :: "obs \<times> real \<times> bool"
  f_reset :: obs
  f_perm :: "nat list"
  f_new_params :: state_dict

text \<open>The agent and the local variables of \<open>train\<close>.\<close>

record train_state =
  t_agent :: DQNAgent
  t_state :: obs
  t_update_cnt :: int
  t_epsilons :: "real list"
  t_losses :: "real list"
  t_scores :: "real list"
  t_score :: real
  t_mov_avg :: "real list"

text \<open>\<open>np.mean(scores[-5:])\<close>, taken right after an append to \<open>scores\<close>.\<close>

definition mean_last5 :: "real list \<Rightarrow> real" where
  "mean_last5 scores =
     (let xs = drop (length scores - 5) scores in sum_list xs / real (length xs))"

text \<open>
  One iteration of the loop. The plotting branch only evaluates
  \<open>frame_idx % plotting_interval\<close>, which raises when \<open>plotting_interval\<close> is 0.
\<close>

definition train_frame :: "int \<Rightarrow> train_state \<Rightarrow> frame_input \<Rightarrow> error + train_state" where
  "train_frame plotting_interval s f =
     (case select_action (t_agent s) (t_state s) (f_rnd f) (f_sampled f) of Inl e \<Rightarrow> Inl e
      | Inr (action, a1) \<Rightarrow>
      case step a1 action (f_resp f) of Inl e \<Rightarrow> Inl e
      | Inr ((next_state, reward, done), a2) \<Rightarrow>
      let s1 = s\<lparr> t_agent := a2, t_state := next_state, t_score := t_score s + reward \<rparr>;
          s2 = (if done
                then s1\<lparr> t_state := f_reset f,
                         t_scores := t_scores s1 @ [t_score s1],
                         t_mov_avg := t_mov_avg s1 @ [mean_last5 (t_scores s1 @ [t_score s1])],
                         t_score := 0 \<rparr>
                else s1)
      in case (if int (len (memory (t_agent s2))) \<ge> batch_size (t_agent s2) then
                (case update_model (t_agent s2) (f_perm f) (f_new_params f) of Inl e \<Rightarrow> Inl e
                 | Inr (loss, a3) \<Rightarrow>
                   let a4 = a3\<lparr> epsilon := max (min_epsilon a3)
                                (epsilon a3 - (max_epsilon a3 - min_epsilon a3) * epsilon_decay a3) \<rparr>;
                       s3 = s2\<lparr> t_agent := a4, t_losses := t_losses s2 @ [loss],
                                t_update_cnt := t_update_cnt s2 + 1,
                                t_epsilons := t_epsilons s2 @ [epsilon a4] \<rparr>
                   in if target_update a4 = 0 then Inl ZeroDivisionError
                      else if t_update_cnt s3 mod target_update a4 = 0
                           then Inr (s3\<lparr> t_agent := target_hard_update a4 \<rparr>)
                           else Inr s3)
              else Inr s2) of
           Inl e \<Rightarrow> Inl e
         | Inr s4 \<Rightarrow> if plotting_interval = 0 then Inl ZeroDivisionError else Inr s4)"

fun train_frames :: "int \<Rightarrow> train_state \<Rightarrow> frame_input list \<Rightarrow> error + train_state" where
  "train_frames plotting_interval s [] = Inr s"
| "train_frames plotting_interval s (f # fs) =
     (case train_frame plotting_interval s f of Inl e \<Rightarrow> Inl e
      | Inr s' \<Rightarrow> train_frames plotting_interval s' fs)"

text \<open>
  \<open>train\<close>: \<open>reset_obs\<close> is the observation of the first \<open>env.reset()\<close>; the loop runs
  once per entry of \<open>frames\<close> (\<open>num_frames\<close> of them).
\<close>

definition train :: "DQNAgent \<Rightarrow> obs \<Rightarrow> frame_input list \<Rightarrow> int \<Rightarrow> error + train_state" where
  "train a reset_obs frames plotting_interval =
     train_frames plotting_interval
       \<lparr> t_agent = a\<lparr> is_test := False \<rparr>, t_state = reset_obs, t_update_cnt = 0,
         t_epsilons = [], t_losses = [], t_scores = [], t_score = 0, t_mov_avg = [] \<rparr> frames"

text \<open>A call of \<open>select_action\<close> or \<open>step\<close> with its outside inputs, and a sequence of such calls.\<close>

datatype call = SelectAction obs real int | Step int "obs \<times> real \<times> bool"

fun do_call :: "DQNAgent \<Rightarrow> call \<Rightarrow> error + DQNAgent" where
  "do_call a (SelectAction state rnd sampled) =
     (case select_action a state rnd sampled of Inl e \<Rightarrow> Inl e | Inr (_, a') \<Rightarrow> Inr a')"
| "do_call a (Step action resp) =
     (case step a action resp of Inl e \<Rightarrow> Inl e | Inr (_, a') \<Rightarrow> Inr a')"

fun do_calls :: "DQNAgent \<Rightarrow> call list \<Rightarrow> error + DQNAgent" where
  "do_calls a [] = Inr a"
| "do_calls a (c # cs) = (case do_call a c of Inl e \<Rightarrow> Inl e | Inr a' \<Rightarrow> do_calls a' cs)"

text \<open>
  The two networks of an agent are built by the same constructor call and share the
  support tensor: they differ in their parameters only.
\<close>

definition same_arch :: "DQNAgent \<Rightarrow> bool" where
  "same_arch a \<longleftrightarrow> n_support (dqn_target a) = n_support (dqn a) \<and>
      out_dim (dqn_target a) = out_dim (dqn a) \<and> n_atom_size (dqn_target a) = n_atom_size (dqn a)"

subsection \<open>Concrete inputs\<close>

text \<open>
  A full buffer of capacity 2 and three transitions to store into it; the buffer of
  capacity 0 that \<open>ReplayBuffer(1, 0, 1)\<close> builds.
\<close>

definition ex_rb :: ReplayBuffer where
  "ex_rb = \<lparr> obs_buf = [[1], [2]], next_obs_buf = [[2], [3]], acts_buf = [0, 1],
             rews_buf = [1, 1], done_buf = [0, 1], max_size = 2, rb_batch_size = 1,
             ptr = 0, size = 2 \<rparr>"

definition ex_rb0 :: ReplayBuffer where
  "ex_rb0 = \<lparr> obs_buf = [], next_obs_buf = [], acts_buf = [], rews_buf = [], done_buf = [],
              max_size = 0, rb_batch_size = 1, ptr = 0, size = 0 \<rparr>"

definition ex_ts :: "transition list" where
  "ex_ts = [([5], 1, 1, [6], False), ([6], 0, 1, [7], False), ([7], 1, 1, [8], True)]"

text \<open>
  A state dict of the shapes the constructor of \<open>Network\<close> fixes (hidden width 128) with
  all weights and biases zero, a network for one observation component, two actions and
  two atoms, and an agent in test mode around it.
\<close>

definition zero_sd :: "nat \<Rightarrow> nat \<Rightarrow> state_dict" where
  "zero_sd in_dim n_out =
     \<lparr> layer0 = (replicate 128 (replicate in_dim 0), replicate 128 0),
       layer2 = (replicate 128 (replicate 128 0), replicate 128 0),
       layer4 = (replicate n_out (replicate 128 0), replicate n_out 0) \<rparr>"

definition ex_net :: Network where
  "ex_net = \<lparr> n_support = [0, 200], out_dim = 2, n_atom_size = 2, n_params = zero_sd 1 4 \<rparr>"

definition ex_agent :: DQNAgent where
  "ex_agent = \<lparr> memory = ex_rb, batch_size = 1, epsilon = 1, epsilon_decay = 1 / 2000,
                 max_epsilon = 1, min_epsilon = 1 / 10, target_update = 200, gamma = 99 / 100,
                 v_min = 0, v_max = 200, atom_size = 2, support = [0, 200],
                 dqn = ex_net, dqn_target = ex_net, transition = [], is_test = True \<rparr>"

text \<open>
  The default support (\<open>v_min = 0\<close>, \<open>v_max = 200\<close>, 51 atoms, so \<open>delta_z = 4\<close>), the
  projection's configuration over it for a discount and a batch size, and the
  distribution with all mass on one atom.
\<close>

definition support51 :: "real list" where
  "support51 = map (\<lambda>i. 4 * real i) [0..<51]"

definition c51 :: "real \<Rightarrow> int \<Rightarrow> proj_cfg" where
  "c51 g bsz = \<lparr> c_v_min = 0, c_v_max = 200, c_atom_size = 51, c_gamma = g,
                 c_support = support51, c_batch_size = bsz \<rparr>"

definition one_hot :: "nat \<Rightarrow> nat \<Rightarrow> real list" where
  "one_hot n i = (replicate n 0)[i := 1]"

text \<open>
  A support of 100 atoms on \<open>[0, 200]\<close> with the projection's configuration over it, and
  the value of \<open>delta_z\<close> there: \<open>200 / 99\<close> rounded to float64.
\<close>

definition support100 :: "real list" where
  "support100 = map (\<lambda>i. real i * (200 / 99)) [0..<100]"

definition c100 :: "real \<Rightarrow> int \<Rightarrow> proj_cfg" where
  "c100 g bsz = \<lparr> c_v_min = 0, c_v_max = 200, c_atom_size = 100, c_gamma = g,
                  c_support = support100, c_batch_size = bsz \<rparr>"

definition dz100 :: real where
  "dz100 = 4549090532697471 / 2 ^ 51"

text \<open>
  What one iteration of the training loop receives: a draw below \<open>epsilon\<close>, the sampled
  action 1, the environment's answer, and the permutation and parameters of an update.
\<close>

definition ex_frame :: frame_input where
  "ex_frame = \<lparr> f_rnd = 1 / 2, f_sampled = 1, f_resp = ([1], 1, False), f_reset = [0],
                 f_perm = [1, 0], f_new_params = zero_sd 1 4 \<rparr>"

section \<open>Properties\<close>

subsection \<open>ReplayBuffer\<close>


lemma set_update_rows:
  assumes "\<forall>row \<in> set xs. length row = w" "length v = w"
  shows "\<forall>row \<in> set (xs[i := v]). length row = w"
proof
  fix row assume a: "row \<in> set (xs[i := v])"
  have "set (xs[i := v]) \<subseteq> insert v (set xs)" by (rule set_update_subset_insert)
  with a have "row = v \<or> row \<in> set xs" by auto
  with assms show "length row = w" by auto
qed

lemma store_ok:
  assumes "rb_wf rb" "rb_rows w rb" "fits w t"
  shows "\<exists>rb'. store rb t = Inr rb' \<and> rb_wf rb' \<and> rb_rows w rb' \<and> max_size rb' = max_size rb \<and>
           ptr rb' = (ptr rb + 1) mod max_size rb \<and>
           size rb' = min (size rb + 1) (max_size rb) \<and>
           slot rb' (ptr rb) = stored t \<and>
           (\<forall>j. j \<noteq> ptr rb \<longrightarrow> slot rb' j = slot rb j)"
proof -
  obtain ob act rew next_ob dn where t: "t = (ob, act, rew, next_ob, dn)" by (cases t) auto
  have p: "ptr rb < length (obs_buf rb)" "ptr rb < length (next_obs_buf rb)"
    using assms(1) by (simp_all add: rb_wf_def)
  have w: "length (obs_buf rb ! ptr rb) = w" "length (next_obs_buf rb ! ptr rb) = w"
    using assms(2) p by (simp_all add: rb_rows_def)
  have f: "length ob = w" "length next_ob = w" using assms(3) t by (simp_all add: fits_def)
  have a: "assign_row (obs_buf rb ! ptr rb) ob = Inr ob"
          "assign_row (next_obs_buf rb ! ptr rb) next_ob = Inr next_ob"
    using w f by (simp_all add: assign_row_def)
  from assms(2) have o: "\<forall>row \<in> set (obs_buf rb). length row = w"
    and n: "\<forall>row \<in> set (next_obs_buf rb). length row = w"
    unfolding rb_rows_def by blast+
  have r: "\<forall>row \<in> set ((obs_buf rb)[ptr rb := ob]). length row = w"
          "\<forall>row \<in> set ((next_obs_buf rb)[ptr rb := next_ob]). length row = w"
    by (rule set_update_rows[OF o f(1)], rule set_update_rows[OF n f(2)])
  let ?rb' = "rb\<lparr> obs_buf := (obs_buf rb)[ptr rb := ob],
                    next_obs_buf := (next_obs_buf rb)[ptr rb := next_ob],
                    acts_buf := (acts_buf rb)[ptr rb := of_int act],
                    rews_buf := (rews_buf rb)[ptr rb := rew],
                    done_buf := (done_buf rb)[ptr rb := (if dn then 1 else 0)],
                    ptr := (ptr rb + 1) mod max_size rb,
                    size := min (size rb + 1) (max_size rb) \<rparr>"
  have s: "store rb t = Inr ?rb'"
    using assms(1) by (simp add: t store_def a rb_wf_def)
  have wf: "rb_wf ?rb'" using assms(1) by (simp add: rb_wf_def)
  have rows: "rb_rows w ?rb'" using r by (simp add: rb_rows_def)
  have sl: "slot ?rb' (ptr rb) = stored t"
    using assms(1) by (simp add: slot_def stored_def t rb_wf_def)
  have fr: "\<forall>j. j \<noteq> ptr rb \<longrightarrow> slot ?rb' j = slot rb j"
    by (simp add: slot_def)
  show ?thesis
    apply (rule exI[of _ ?rb'])
    apply (intro conjI)
           apply (rule s)
          apply (rule wf)
         apply (rule rows)
        apply simp
       apply simp
      apply simp
     apply (rule sl)
    apply (rule fr)
    done
qed

lemma store_all_append:
  "store_all rb (ts @ us) = (case store_all rb ts of Inl e \<Rightarrow> Inl e | Inr rb' \<Rightarrow> store_all rb' us)"
  by (induction ts arbitrary: rb) (auto split: sum.splits)

lemma mod_shift_neq:
  fixes a d c :: nat
  assumes "0 < d" "d < c"
  shows "(a + d) mod c \<noteq> a mod c"
proof
  assume "(a + d) mod c = a mod c"
  then have "c dvd (a + d) - a"
    by (metis le_add1 mod_eq_dvd_iff_nat)
  then have "c dvd d" by simp
  with assms show False by (simp add: nat_dvd_not_less)
qed

lemma store_all_inv:
  assumes "rb_wf rb" "rb_rows w rb" "\<forall>t \<in> set ts. fits w t"
  shows "\<exists>rb'. store_all rb ts = Inr rb' \<and> rb_wf rb' \<and> rb_rows w rb' \<and>
           max_size rb' = max_size rb \<and>
           ptr rb' = (ptr rb + length ts) mod max_size rb \<and>
           size rb' = min (size rb + length ts) (max_size rb) \<and>
           (\<forall>i < length ts. length ts - i \<le> max_size rb \<longrightarrow>
               slot rb' ((ptr rb + i) mod max_size rb) = stored (ts ! i))"
  using assms(3)
proof (induction ts rule: rev_induct)
  case Nil
  with assms show ?case by (simp add: rb_wf_def)
next
  case (snoc t ts)
  then have ft: "fits w t" and fts: "\<forall>t \<in> set ts. fits w t" by simp_all
  from snoc.IH[OF fts]
  obtain rb1 where 1: "store_all rb ts = Inr rb1" "rb_wf rb1" "max_size rb1 = max_size rb"
    "ptr rb1 = (ptr rb + length ts) mod max_size rb"
    "size rb1 = min (size rb + length ts) (max_size rb)"
    "\<forall>i < length ts. length ts - i \<le> max_size rb \<longrightarrow>
               slot rb1 ((ptr rb + i) mod max_size rb) = stored (ts ! i)"
    and rows1: "rb_rows w rb1"
    by blast
  from store_ok[OF 1(2) rows1 ft] obtain rb2 where 2: "store rb1 t = Inr rb2" "rb_wf rb2"
    "max_size rb2 = max_size rb1" "ptr rb2 = (ptr rb1 + 1) mod max_size rb1"
    "size rb2 = min (size rb1 + 1) (max_size rb1)"
    "slot rb2 (ptr rb1) = stored t"
    "\<forall>j. j \<noteq> ptr rb1 \<longrightarrow> slot rb2 j = slot rb1 j"
    and rows2: "rb_rows w rb2"
    by blast
  have a: "store_all rb (ts @ [t]) = Inr rb2"
    using 1(1) 2(1) by (simp add: store_all_append)
  have b: "ptr rb2 = (ptr rb + length (ts @ [t])) mod max_size rb"
    using 1 2 by (simp add: mod_Suc_eq)
  have c: "size rb2 = min (size rb + length (ts @ [t])) (max_size rb)"
    using 1 2 by auto
  have d: "slot rb2 ((ptr rb + i) mod max_size rb) = stored ((ts @ [t]) ! i)"
    if "i < length (ts @ [t])" "length (ts @ [t]) - i \<le> max_size rb" for i
  proof (cases "i = length ts")
    case True
    then show ?thesis using 1(4) 2(6) by simp
  next
    case False
    with that have il: "i < length ts" and le: "length ts - i < max_size rb" by auto
    have "(ptr rb + i + (length ts - i)) mod max_size rb \<noteq> (ptr rb + i) mod max_size rb"
      using il le by (intro mod_shift_neq) auto
    then have "(ptr rb + i) mod max_size rb \<noteq> ptr rb1"
      using 1(4) il by (simp add: add.assoc) 
    then have "slot rb2 ((ptr rb + i) mod max_size rb) = slot rb1 ((ptr rb + i) mod max_size rb)"
      using 2(7) by blast
    also have "\<dots> = stored (ts ! i)" using 1(6) il le by simp
    finally show ?thesis using il by (simp add: nth_append)
  qed
  show ?case using a b c d 2(2) 2(3) 1(3) rows2 by auto
qed


lemma init_wf:
  "0 < sz \<Longrightarrow> ReplayBuffer_init od sz bs = Inr rb \<Longrightarrow> rb_wf rb \<and> rb_rows od rb \<and> len rb = 0"
  by (auto simp: ReplayBuffer_init_def rb_wf_def rb_rows_def len_def)

text \<open>
  C5 as stated fails on the code: the constructor builds a buffer of capacity 0 without
  complaint, and the first assignment of \<open>store\<close> on it raises IndexError.
\<close>

theorem store_capacity_zero_counterexample:
  "ReplayBuffer_init 1 0 1 = Inr ex_rb0 \<and>
   store ex_rb0 ([1], 1, 1, [2], False) = Inl IndexError"
  by (simp add: ReplayBuffer_init_def ex_rb0_def store_def)

text \<open>
  C5 (amended). In a buffer of positive capacity (every buffer \<open>ReplayBuffer_init\<close>
  builds with \<open>size > 0\<close>, and every buffer \<open>store\<close> returns from one) and for
  transitions whose observations have the width of the buffer's rows, \<open>store\<close> never
  fails: it writes the transition into slot \<open>ptr\<close> and nowhere else, sets \<open>ptr\<close> to
  \<open>(ptr + 1) mod max_size\<close> and \<open>size\<close> to \<open>min (size + 1) max_size\<close>. Any sequence of
  such stores succeeds, and after at least \<open>max_size\<close> of them \<open>len\<close> is \<open>max_size\<close>
  and the slots, read from \<open>ptr\<close> onwards cyclically, hold the last \<open>max_size\<close>
  transitions stored, oldest first.
\<close>

theorem store_ring_buffer:
  assumes "rb_wf rb" and "rb_rows w rb" and "fits w t" and "\<forall>t \<in> set ts. fits w t"
  shows "(\<exists>rb'. store rb t = Inr rb' \<and> slot rb' (ptr rb) = stored t \<and>
              (\<forall>j. j \<noteq> ptr rb \<longrightarrow> slot rb' j = slot rb j) \<and>
              ptr rb' = (ptr rb + 1) mod max_size rb \<and>
              size rb' = min (size rb + 1) (max_size rb)) \<and>
         (\<exists>rb'. store_all rb ts = Inr rb' \<and>
              (max_size rb \<le> length ts \<longrightarrow>
                 len rb' = max_size rb \<and>
                 (\<forall>j < max_size rb.
                     slot rb' ((ptr rb' + j) mod max_size rb) =
                     stored (drop (length ts - max_size rb) ts ! j))))"
proof
  show "\<exists>rb'. store rb t = Inr rb' \<and> slot rb' (ptr rb) = stored t \<and>
              (\<forall>j. j \<noteq> ptr rb \<longrightarrow> slot rb' j = slot rb j) \<and>
              ptr rb' = (ptr rb + 1) mod max_size rb \<and>
              size rb' = min (size rb + 1) (max_size rb)"
  proof -
    from store_ok[OF assms(1,2,3)] obtain rb' where
      "store rb t = Inr rb'" "slot rb' (ptr rb) = stored t"
      "\<forall>j. j \<noteq> ptr rb \<longrightarrow> slot rb' j = slot rb j"
      "ptr rb' = (ptr rb + 1) mod max_size rb" "size rb' = min (size rb + 1) (max_size rb)"
      by auto
    then show ?thesis by (intro exI[of _ rb']) simp
  qed
next
  let ?c = "max_size rb"
  obtain rb' where r: "store_all rb ts = Inr rb'" "ptr rb' = (ptr rb + length ts) mod ?c"
     "size rb' = min (size rb + length ts) ?c"
     "\<forall>i < length ts. length ts - i \<le> ?c \<longrightarrow> slot rb' ((ptr rb + i) mod ?c) = stored (ts ! i)"
    using store_all_inv[OF assms(1,2,4)] by auto
  have "len rb' = ?c \<and> (\<forall>j < ?c. slot rb' ((ptr rb' + j) mod ?c) = stored (drop (length ts - ?c) ts ! j))"
    if le: "?c \<le> length ts"
  proof
    show "len rb' = ?c" using r(3) le by (simp add: len_def)
    show "\<forall>j < ?c. slot rb' ((ptr rb' + j) mod ?c) = stored (drop (length ts - ?c) ts ! j)"
    proof (intro allI impI)
      fix j assume j: "j < ?c"
      let ?i = "length ts - ?c + j"
      have i: "?i < length ts" "length ts - ?i \<le> ?c" using j le by auto
      have "(ptr rb' + j) mod ?c = (ptr rb + length ts + j) mod ?c"
        using r(2) by (simp add: mod_add_left_eq)
      also have "ptr rb + length ts + j = (ptr rb + ?i) + ?c" using le by simp
      also have "\<dots> mod ?c = (ptr rb + ?i) mod ?c" by simp
      finally have "slot rb' ((ptr rb' + j) mod ?c) = stored (ts ! ?i)"
        using r(4) i by simp
      then show "slot rb' ((ptr rb' + j) mod ?c) = stored (drop (length ts - ?c) ts ! j)"
        using le by simp
    qed
  qed
  with r(1) show "\<exists>rb'. store_all rb ts = Inr rb' \<and>
              (?c \<le> length ts \<longrightarrow>
                 len rb' = ?c \<and>
                 (\<forall>j < ?c. slot rb' ((ptr rb' + j) mod ?c) = stored (drop (length ts - ?c) ts ! j)))"
    by blast
qed

theorem store_ring_buffer_witness:
  "(rb_wf ex_rb \<and> rb_rows 1 ex_rb \<and> fits 1 ([9], 1, 1, [10], True) \<and>
    list_all (fits 1) ex_ts) \<and>
   ((\<exists>rb'. store ex_rb ([9], 1, 1, [10], True) = Inr rb' \<and> slot rb' (ptr ex_rb) = stored ([9], 1, 1, [10], True) \<and>
              (\<forall>j. j \<noteq> ptr ex_rb \<longrightarrow> slot rb' j = slot ex_rb j) \<and>
              ptr rb' = (ptr ex_rb + 1) mod max_size ex_rb \<and>
              size rb' = min (size ex_rb + 1) (max_size ex_rb)) \<and>
         (\<exists>rb'. store_all ex_rb ex_ts = Inr rb' \<and>
              (max_size ex_rb \<le> length ex_ts \<longrightarrow>
                 len rb' = max_size ex_rb \<and>
                 (\<forall>j < max_size ex_rb.
                     slot rb' ((ptr rb' + j) mod max_size ex_rb) =
                     stored (drop (length ex_ts - max_size ex_rb) ex_ts ! j)))))"
proof -
  have h1: "rb_wf ex_rb" by (simp add: rb_wf_def ex_rb_def)
  have h2: "rb_rows 1 ex_rb" by (simp add: rb_rows_def ex_rb_def)
  have h3: "fits 1 ([9], 1, 1, [10], True)" by (simp add: fits_def)
  have h4: "\<forall>t \<in> set ex_ts. fits 1 t" by (simp add: fits_def ex_ts_def)
  have h4': "list_all (fits 1) ex_ts" using h4 by (simp add: list_all_iff)
  have hs: "rb_wf ex_rb \<and> rb_rows 1 ex_rb \<and> fits 1 ([9], 1, 1, [10], True) \<and>
            list_all (fits 1) ex_ts"
    using h1 h2 h3 h4' by simp
  show ?thesis by (rule conjI[OF hs store_ring_buffer[OF h1 h2 h3 h4]])
qed




subsection \<open>Agent construction\<close>

text \<open>
  C4 as stated fails on the code: with one atom, \<open>v_min = v_max = 0\<close> and a batch size
  of 32 over a memory of 10, construction returns an agent.
\<close>

theorem DQNAgent_init_no_validation_counterexample:
  "(1::int) < 2 \<and> (0::real) \<ge> 0 \<and> (32::int) > 10 \<and>
   \<not> isl (DQNAgent_init 4 2 10 32 200 (1 / 2000) 1 (1 / 10) (99 / 100) 0 0 1
              (zero_sd 4 2) (zero_sd 4 2))"
  by (simp add: DQNAgent_init_def ReplayBuffer_init_def linspace_def Let_def)

text \<open>
  C4 (amended). \<open>__init__\<close> validates nothing: construction succeeds exactly when
  \<open>memory_size\<close> and \<open>atom_size\<close> are not negative (the array allocation and
  \<open>linspace\<close> are its only failures), whatever \<open>v_min\<close>, \<open>v_max\<close> and \<open>batch_size\<close>
  are, so also when \<open>atom_size < 2\<close>, \<open>v_min \<ge> v_max\<close> or \<open>batch_size > memory_size\<close>.
\<close>

theorem DQNAgent_init_succeeds_iff:
  "(\<exists>a. DQNAgent_init od ad ms bs tu ed mx mn g vmin vmax atoms sd1 sd2 = Inr a)
     \<longleftrightarrow> 0 \<le> ms \<and> 0 \<le> atoms"
  by (auto simp: DQNAgent_init_def ReplayBuffer_init_def linspace_def Let_def split: sum.splits)

theorem DQNAgent_init_succeeds_iff_witness:
  "(\<exists>a. DQNAgent_init 4 2 10 32 200 (1 / 2000) 1 (1 / 10) (99 / 100) 0 0 1
              (zero_sd 4 2) (zero_sd 4 2) = Inr a) \<and> (0::int) \<le> 10 \<and> (0::int) \<le> 1"
  using DQNAgent_init_succeeds_iff[of 4 2 10 32 200 "1 / 2000" 1 "1 / 10" "99 / 100" 0 0 1
              "zero_sd 4 2" "zero_sd 4 2"] by simp

subsection \<open>Hard update\<close>

lemma init_same_arch:
  "DQNAgent_init od ad ms bs tu ed mx mn g vmin vmax atoms sd1 sd2 = Inr a \<Longrightarrow> same_arch a"
  by (auto simp: DQNAgent_init_def same_arch_def load_state_dict_def Let_def split: sum.splits)

text \<open>
  C9. Right after \<open>_target_hard_update\<close> the target network has the parameters of the
  online network, which the update leaves as they were; the two networks (of one
  architecture and one support, as \<open>__init__\<close> builds them) then give the same
  distributions and the same action values on every batch of observations.
\<close>

theorem target_hard_update_equal:
  assumes "same_arch a"
  shows "n_params (dqn_target (target_hard_update a)) = n_params (dqn a) \<and>
         dqn (target_hard_update a) = dqn a \<and>
         Network_dist (dqn_target (target_hard_update a)) xs =
           Network_dist (dqn (target_hard_update a)) xs \<and>
         Network_forward (dqn_target (target_hard_update a)) xs =
           Network_forward (dqn (target_hard_update a)) xs"
proof -
  have "dqn_target (target_hard_update a) = dqn a"
    using assms by (simp add: target_hard_update_def load_state_dict_def same_arch_def)
  moreover have "dqn (target_hard_update a) = dqn a"
    by (simp add: target_hard_update_def)
  ultimately show ?thesis by simp
qed

theorem target_hard_update_equal_witness:
  "same_arch ex_agent \<and>
   (n_params (dqn_target (target_hard_update ex_agent)) = n_params (dqn ex_agent) \<and>
    dqn (target_hard_update ex_agent) = dqn ex_agent \<and>
    Network_dist (dqn_target (target_hard_update ex_agent)) [[0]] =
      Network_dist (dqn (target_hard_update ex_agent)) [[0]] \<and>
    Network_forward (dqn_target (target_hard_update ex_agent)) [[0]] =
      Network_forward (dqn (target_hard_update ex_agent)) [[0]])"
proof -
  have h: "same_arch ex_agent" by (simp add: same_arch_def ex_agent_def)
  show ?thesis using h target_hard_update_equal[OF h] by blast
qed

subsection \<open>Test mode\<close>

lemma select_action_test: "is_test a \<Longrightarrow> select_action a s rnd smp = Inr (act, a') \<Longrightarrow> a' = a"
  by (auto simp: select_action_def split: sum.splits if_splits)

lemma step_test: "is_test a \<Longrightarrow> step a action resp = Inr (resp, a)"
  by (cases resp) (simp add: step_def)

lemma do_call_test: "is_test a \<Longrightarrow> do_call a c = Inr a' \<Longrightarrow> a' = a"
  by (cases c) (auto simp: step_test dest: select_action_test split: sum.splits)

lemma do_calls_test: "is_test a \<Longrightarrow> do_calls a cs = Inr a' \<Longrightarrow> a' = a"
proof (induction cs arbitrary: a')
  case Nil then show ?case by simp
next
  case (Cons c cs)
  then show ?case by (auto split: sum.splits dest: do_call_test)
qed

text \<open>
  C10. In test mode \<open>select_action\<close> leaves the pending transition and the replay
  buffer as they are, \<open>step\<close> always returns and stores nothing, and after any sequence
  of \<open>select_action\<close> and \<open>step\<close> calls the pending transition and the buffer (its
  slots, \<open>ptr\<close> and \<open>size\<close>) are unchanged.
\<close>

theorem test_mode_frame:
  assumes "is_test a"
  shows "(\<forall>state rnd sampled act a'. select_action a state rnd sampled = Inr (act, a') \<longrightarrow>
            transition a' = transition a \<and> memory a' = memory a) \<and>
         (\<forall>action resp. \<exists>a'. step a action resp = Inr (resp, a') \<and>
            transition a' = transition a \<and> memory a' = memory a) \<and>
         (\<forall>cs a'. do_calls a cs = Inr a' \<longrightarrow>
            transition a' = transition a \<and> memory a' = memory a \<and>
            slot (memory a') = slot (memory a) \<and> ptr (memory a') = ptr (memory a) \<and>
            size (memory a') = size (memory a))"
  using assms select_action_test step_test do_calls_test by blast

theorem test_mode_frame_witness:
  "is_test ex_agent \<and>
   select_action ex_agent [0] (1 / 2) 1 = Inr (1, ex_agent) \<and>
   step ex_agent 1 ([1], 1, True) = Inr (([1], 1, True), ex_agent) \<and>
   (\<exists>a'. do_calls ex_agent [SelectAction [0] (1 / 2) 1, Step 1 ([1], 1, True)] = Inr a' \<and>
      transition a' = transition ex_agent \<and> memory a' = memory ex_agent \<and>
      slot (memory a') = slot (memory ex_agent) \<and> ptr (memory a') = ptr (memory ex_agent) \<and>
      size (memory a') = size (memory ex_agent))"
proof -
  have h: "is_test ex_agent" by (simp add: ex_agent_def)
  have s: "select_action ex_agent [0] (1 / 2) 1 = Inr (1, ex_agent)"
    by (simp add: select_action_def ex_agent_def)
  have t: "step ex_agent 1 ([1], 1, True) = Inr (([1], 1, True), ex_agent)"
    using h by (simp add: step_def)
  have d: "do_calls ex_agent [SelectAction [0] (1 / 2) 1, Step 1 ([1], 1, True)] = Inr ex_agent"
    using s t by simp
  show ?thesis using h s t d test_mode_frame[OF h] by blast
qed

subsection \<open>Floating-point rounding\<close>

declare bit_length.simps [simp del]

lemma bit_length_0 [simp]: "bit_length 0 = 0"
  by (simp add: bit_length.simps)

lemma bit_length_numeral [simp]:
  "bit_length (numeral n) = Suc (bit_length (numeral n div 2))"
  by (subst bit_length.simps) simp

lemma bit_length_1 [simp]: "bit_length (Suc 0) = Suc 0"
  by (subst bit_length.simps) simp

lemma fl32_1_200: "fl32 (1 / 200) = 5368709 / 2 ^ 30"
  by (simp add: fl32_def fl_def expo_def pow2_def round_even_def Let_def)

lemma bit_length_le: "m < 2 ^ k \<Longrightarrow> bit_length m \<le> k"
proof (induction k arbitrary: m)
  case 0
  then show ?case by simp
next
  case (Suc k)
  show ?case
  proof (cases "m = 0")
    case True
    then show ?thesis by simp
  next
    case False
    have "m div 2 < 2 ^ k" using Suc.prems by auto
    from Suc.IH[OF this] False show ?thesis by (subst bit_length.simps) simp
  qed
qed

lemma round_even_of_int [simp]: "round_even (of_int m) = m"
  by (simp add: round_even_def)

lemma fl_0 [simp]: "fl p emin 0 = 0"
  by (simp add: fl_def)

lemma fl_of_int:
  assumes "\<bar>n\<bar> < 2 ^ p" "emin \<le> 0" "0 < p"
  shows "fl p emin (of_int n) = of_int n"
proof (cases "n = 0")
  case True
  then show ?thesis by simp
next
  case False
  then have one: "1 \<le> \<bar>real_of_int n\<bar>" by (simp flip: of_int_abs add: of_int_1_le_iff)
  have fl: "\<lfloor>\<bar>real_of_int n\<bar>\<rfloor> = \<bar>n\<bar>" by (simp flip: of_int_abs)
  have "nat \<bar>n\<bar> < 2 ^ p" using assms(1) by (simp add: nat_less_iff)
  then have "bit_length (nat \<bar>n\<bar>) \<le> p" by (rule bit_length_le)
  then have e: "expo (of_int n) \<le> int p - 1" using one fl by (simp add: expo_def)
  define q where "q = max (expo (of_int n) - int p + 1) emin"
  have q: "q \<le> 0" using e assms(2) by (simp add: q_def)
  define k where "k = nat (- q)"
  have u: "pow2 q = 1 / 2 ^ k"
    using q by (cases "q = 0") (simp_all add: pow2_def k_def)
  have "real_of_int n / pow2 q = of_int (n * 2 ^ k)" by (simp add: u)
  then have "round_even (real_of_int n / pow2 q) = n * 2 ^ k" by (simp only: round_even_of_int)
  then have "fl p emin (of_int n) = of_int (n * 2 ^ k) * (1 / 2 ^ k)"
    using False by (simp add: fl_def Let_def q_def[symmetric] u)
  then show ?thesis by simp
qed

lemma fl32_of_int: "\<bar>n\<bar> < 2 ^ 24 \<Longrightarrow> fl32 (of_int n) = of_int n"
  by (simp add: fl32_def fl_of_int)

lemma fl64_of_int: "\<bar>n\<bar> < 2 ^ 53 \<Longrightarrow> fl64 (of_int n) = of_int n"
  by (simp add: fl64_def fl_of_int)

lemma fl32_0 [simp]: "fl32 0 = 0" by (simp add: fl32_def)

lemma fl32_numeral [simp]: "numeral n < (2 ^ 24 :: int) \<Longrightarrow> fl32 (numeral n) = numeral n"
  using fl32_of_int[of "numeral n"] by simp

lemma fl32_neg_numeral [simp]: "numeral n < (2 ^ 24 :: int) \<Longrightarrow> fl32 (- numeral n) = - numeral n"
  using fl32_of_int[of "- numeral n"] by simp

lemma fl32_1 [simp]: "fl32 1 = 1"
  using fl32_of_int[of 1] by simp

lemma fl64_numeral [simp]: "numeral n < (2 ^ 53 :: int) \<Longrightarrow> fl64 (numeral n) = numeral n"
  using fl64_of_int[of "numeral n"] by simp

lemma fl32_of_nat: "n < 2 ^ 24 \<Longrightarrow> fl32 (real n) = real n"
  using fl32_of_int[of "int n"] by simp

lemma fl32_m1 [simp]: "fl32 (- 1) = - 1"
  using fl32_of_int[of "- 1"] by simp

subsection \<open>Categorical projection\<close>

lemma long_of_int [simp]: "long (of_int n) = n"
  by (simp add: long_def)

lemma index_add_ok:
  assumes "length is = length vs" "\<forall>i \<in> set is. 0 \<le> i \<and> nat i < length acc"
  shows "\<exists>acc'. index_add acc is vs = Inr acc' \<and> length acc' = length acc"
  using assms
proof (induction "is" vs arbitrary: acc rule: list_induct2)
  case Nil
  then show ?case by simp
next
  case (Cons i "is" v vs)
  let ?acc1 = "acc[nat i := fl32 (acc ! nat i + v)]"
  have "\<forall>i \<in> set is. 0 \<le> i \<and> nat i < length ?acc1" using Cons.prems by simp
  from Cons.IH[OF this] Cons.prems show ?case by simp
qed

lemma index_add_zeros:
  assumes "length is = length vs" "\<forall>i \<in> set is. 0 \<le> i \<and> nat i < n" "\<forall>v \<in> set vs. v = 0"
  shows "index_add (replicate n 0) is vs = Inr (replicate n 0)"
  using assms
proof (induction "is" vs rule: list_induct2)
  case Nil
  then show ?case by simp
next
  case (Cons i "is" v vs)
  then have i: "0 \<le> i" "nat i < n" and v: "v = 0" by auto
  have "(replicate n (0::real))[nat i := replicate n 0 ! nat i] = replicate n 0"
    by (rule list_update_id)
  then have "(replicate n (0::real))[nat i := 0] = replicate n 0" using i by simp
  with Cons i v show ?case by simp
qed

lemma offset_valid:
  assumes "0 \<le> c_batch_size c"
  shows "offset c = Inr (map (\<lambda>k. int k * c_atom_size c) [0..<nat (c_batch_size c)])"
proof (cases "c_batch_size c = 1")
  case True
  then show ?thesis by (simp add: offset_def linspace_def long_def)
next
  case False
  have "long (0 + real k * ((real_of_int ((c_batch_size c - 1) * c_atom_size c) - 0)
              / real_of_int (c_batch_size c - 1))) = int k * c_atom_size c" for k
  proof -
    have ne: "real_of_int (c_batch_size c - 1) \<noteq> 0" using False by simp
    have "real k * (real_of_int ((c_batch_size c - 1) * c_atom_size c) / real_of_int (c_batch_size c - 1))
            = real_of_int (int k * c_atom_size c)"
      using ne by simp
    then show ?thesis by (simp only: add_0 diff_zero long_of_int)
  qed
  then show ?thesis using assms False by (simp add: offset_def linspace_def)
qed

lemma unflatten_zeros:
  "unflatten B n (replicate (B * n) (0::real)) = replicate B (replicate n 0)"
proof (rule nth_equalityI)
  show "length (unflatten B n (replicate (B * n) (0::real))) = length (replicate B (replicate n (0::real)))"
    by (simp add: unflatten_def)
next
  fix k assume "k < length (unflatten B n (replicate (B * n) (0::real)))"
  then have k: "k < B" by (simp add: unflatten_def)
  have "Suc k * n \<le> B * n" using k by (intro mult_le_mono1) simp
  then have "n \<le> B * n - k * n" by simp
  then have "take n (drop (k * n) (replicate (B * n) (0::real))) = replicate n 0"
    by (simp add: min_def)
  then show "unflatten B n (replicate (B * n) (0::real)) ! k = replicate B (replicate n 0) ! k"
    using k by (simp add: unflatten_def)
qed

lemma b_row_length [simp]: "length (b_row c dz r d) = length (c_support c)"
  by (simp add: b_row_def t_z_row_def)

lemma l_row_length [simp]: "length (l_row c dz r d) = length (c_support c)"
  by (simp add: l_row_def)

lemma u_row_length [simp]: "length (u_row c dz r d) = length (c_support c)"
  by (simp add: u_row_def)

lemma src_l_length [simp]: "length p = length (c_support c) \<Longrightarrow> length (src_l c dz r d p) = length (c_support c)"
  by (simp add: src_l_def)

lemma src_u_length [simp]: "length p = length (c_support c) \<Longrightarrow> length (src_u c dz r d p) = length (c_support c)"
  by (simp add: src_u_def)

lemma proj_dist_unfold:
  assumes dz: "delta_z c = Inr dz" and nz: "fl32 dz \<noteq> 0"
    and sh: "int (length reward) = c_batch_size c" "length done = length reward"
            "length next_dist = length reward"
            "\<forall>p \<in> set next_dist. length p = length (c_support c)"
    and n: "int (length (c_support c)) = c_atom_size c"
  shows "proj_dist c reward done next_dist =
     (case index_add (replicate (length reward * length (c_support c)) 0)
             (concat (map (\<lambda>k. map (\<lambda>l. l + int k * int (length (c_support c)))
                                  (l_row c dz (reward ! k) (done ! k))) [0..<length reward]))
             (concat (map (\<lambda>k. src_l c dz (reward ! k) (done ! k) (next_dist ! k))
                          [0..<length reward])) of
        Inl e \<Rightarrow> Inl e
      | Inr acc1 \<Rightarrow>
         (case index_add acc1
                 (concat (map (\<lambda>k. map (\<lambda>l. l + int k * int (length (c_support c)))
                                      (u_row c dz (reward ! k) (done ! k))) [0..<length reward]))
                 (concat (map (\<lambda>k. src_u c dz (reward ! k) (done ! k) (next_dist ! k))
                              [0..<length reward])) of
            Inl e \<Rightarrow> Inl e
          | Inr acc2 \<Rightarrow> Inr (unflatten (length reward) (length (c_support c)) acc2)))"
proof -
  let ?B = "length reward" and ?n = "length (c_support c)"
  let ?off = "map (\<lambda>k. int k * c_atom_size c) [0..<?B]"
  let ?rows = "zip (zip reward done) (zip next_dist ?off)"
  let ?li = "\<lambda>k. l_row c dz (reward ! k) (done ! k)"
  let ?ui = "\<lambda>k. u_row c dz (reward ! k) (done ! k)"
  let ?ls = "\<lambda>k. src_l c dz (reward ! k) (done ! k) (next_dist ! k)"
  let ?us = "\<lambda>k. src_u c dz (reward ! k) (done ! k) (next_dist ! k)"
  have bs: "0 \<le> c_batch_size c" "nat (c_batch_size c) = ?B" using sh(1) by linarith+
  have off: "offset c = Inr ?off" using offset_valid[OF bs(1)] bs(2) by simp
  have l_idx: "map (\<lambda>((r, d), (p, k)). map (\<lambda>l. l + k) (l_row c dz r d)) ?rows
                 = map (\<lambda>k. map (\<lambda>l. l + int k * int ?n) (?li k)) [0..<?B]"
    by (rule nth_equalityI) (simp_all add: sh(2,3) n)
  have u_idx: "map (\<lambda>((r, d), (p, k)). map (\<lambda>u. u + k) (u_row c dz r d)) ?rows
                 = map (\<lambda>k. map (\<lambda>l. l + int k * int ?n) (?ui k)) [0..<?B]"
    by (rule nth_equalityI) (simp_all add: sh(2,3) n)
  have l_src: "map (\<lambda>((r, d), (p, k)). src_l c dz r d p) ?rows = map ?ls [0..<?B]"
    by (rule nth_equalityI) (simp_all add: sh(2,3) n)
  have u_src: "map (\<lambda>((r, d), (p, k)). src_u c dz r d p) ?rows = map ?us [0..<?B]"
    by (rule nth_equalityI) (simp_all add: sh(2,3) n)
  show ?thesis
    apply (simp only: proj_dist_def dz sum.case off Let_def flatten_def)
    apply (simp only: l_idx u_idx l_src u_src)
    using sh nz apply (simp cong: sum.case_cong)
    done
qed

lemma rows_concat:
  fixes n B :: nat and idx :: "nat \<Rightarrow> int list" and src :: "nat \<Rightarrow> real list"
  assumes sh: "\<forall>k<B. length (idx k) = n \<and> length (src k) = n \<and> (\<forall>l \<in> set (idx k). 0 \<le> l \<and> l < int n)"
  shows "length (concat (map (\<lambda>k. map (\<lambda>l. l + int k * int n) (idx k)) [0..<B]))
           = length (concat (map src [0..<B]))"
    and "\<forall>i \<in> set (concat (map (\<lambda>k. map (\<lambda>l. l + int k * int n) (idx k)) [0..<B])).
            0 \<le> i \<and> nat i < B * n"
proof -
  let ?iss = "map (\<lambda>k. map (\<lambda>l. l + int k * int n) (idx k)) [0..<B]"
  let ?vss = "map src [0..<B]"
  have "map length ?iss = map length ?vss" using sh by simp
  then have "sum_list (map length ?iss) = sum_list (map length ?vss)" by (rule arg_cong)
  then show "length (concat ?iss) = length (concat ?vss)" by (simp only: length_concat)
  show "\<forall>i \<in> set (concat ?iss). 0 \<le> i \<and> nat i < B * n"
  proof
    fix i assume "i \<in> set (concat ?iss)"
    then obtain k l where k: "k < B" and l: "l \<in> set (idx k)" and i: "i = l + int k * int n"
      by auto
    from sh k l have lb: "0 \<le> l" "l < int n" by auto
    have "i < int (Suc k) * int n" using lb i by (simp add: algebra_simps)
    also have "\<dots> \<le> int B * int n"
      using k by (intro mult_right_mono) auto
    finally have "i < int (B * n)" by simp
    moreover have "0 \<le> i" using lb i by simp
    ultimately show "0 \<le> i \<and> nat i < B * n" by (simp add: nat_less_iff)
  qed
qed

lemma on_grid_row:
  assumes grid: "\<forall>i < length (c_support c). \<exists>m. 0 \<le> m \<and> m < A \<and> b_row c dz r d ! i = of_int m"
    and small: "A \<le> 2 ^ 24"
  shows "\<forall>l \<in> set (l_row c dz r d). 0 \<le> l \<and> l < A"
    and "\<forall>u \<in> set (u_row c dz r d). 0 \<le> u \<and> u < A"
    and "\<forall>v \<in> set (src_l c dz r d p). v = 0"
    and "\<forall>v \<in> set (src_u c dz r d p). v = 0"
proof -
  have lu: "l_row c dz r d ! i = u_row c dz r d ! i \<and> 0 \<le> l_row c dz r d ! i \<and>
            l_row c dz r d ! i < A \<and> b_row c dz r d ! i = of_int (l_row c dz r d ! i) \<and>
            0 \<le> u_row c dz r d ! i \<and> u_row c dz r d ! i < A"
    if "i < length (c_support c)" for i
  proof -
    from grid that obtain m where m: "0 \<le> m" "m < A" "b_row c dz r d ! i = of_int m" by blast
    then show ?thesis using that by (simp add: l_row_def u_row_def)
  qed
  show "\<forall>l \<in> set (l_row c dz r d). 0 \<le> l \<and> l < A"
    using lu by (auto simp: in_set_conv_nth)
  show "\<forall>u \<in> set (u_row c dz r d). 0 \<le> u \<and> u < A"
    using lu by (auto simp: in_set_conv_nth)
  have cast: "fl32 (real_of_int (l_row c dz r d ! i)) = real_of_int (l_row c dz r d ! i)"
    if "i < length (c_support c)" for i
    using lu[OF that] small by (intro fl32_of_int) simp
  show "\<forall>v \<in> set (src_l c dz r d p). v = 0"
  proof
    fix v assume "v \<in> set (src_l c dz r d p)"
    then obtain i where i: "i < length (src_l c dz r d p)" "v = src_l c dz r d p ! i"
      by (auto simp: in_set_conv_nth)
    then have il: "i < length (c_support c)" "i < length p" by (simp_all add: src_l_def)
    have "v = fl32 (fl32 (p ! i) * fl32 (fl32 (real_of_int (u_row c dz r d ! i)) - b_row c dz r d ! i))"
      using i il by (simp add: src_l_def)
    then show "v = 0" using lu[OF il(1)] cast[OF il(1)] by simp
  qed
  show "\<forall>v \<in> set (src_u c dz r d p). v = 0"
  proof
    fix v assume "v \<in> set (src_u c dz r d p)"
    then obtain i where i: "i < length (src_u c dz r d p)" "v = src_u c dz r d p ! i"
      by (auto simp: in_set_conv_nth)
    then have il: "i < length (c_support c)" "i < length p" by (simp_all add: src_u_def)
    have "v = fl32 (fl32 (p ! i) * fl32 (b_row c dz r d ! i - fl32 (real_of_int (l_row c dz r d ! i))))"
      using i il by (simp add: src_u_def)
    then show "v = 0" using lu[OF il(1)] cast[OF il(1)] by simp
  qed
qed

lemma proj_dist_on_grid:
  assumes dz: "delta_z c = Inr dz" and nz: "fl32 dz \<noteq> 0"
    and sh: "int (length reward) = c_batch_size c" "length done = length reward"
            "length next_dist = length reward"
            "\<forall>p \<in> set next_dist. length p = length (c_support c)"
    and n: "int (length (c_support c)) = c_atom_size c"
    and small: "c_atom_size c \<le> 2 ^ 24"
    and grid: "\<forall>k < length reward. \<forall>i < length (c_support c).
                 \<exists>m. 0 \<le> m \<and> m < c_atom_size c \<and> b_row c dz (reward ! k) (done ! k) ! i = of_int m"
  shows "proj_dist c reward done next_dist
           = Inr (replicate (length reward) (replicate (length (c_support c)) 0))"
proof -
  let ?B = "length reward" and ?n = "length (c_support c)"
  let ?li = "\<lambda>k. l_row c dz (reward ! k) (done ! k)"
  let ?ui = "\<lambda>k. u_row c dz (reward ! k) (done ! k)"
  let ?ls = "\<lambda>k. src_l c dz (reward ! k) (done ! k) (next_dist ! k)"
  let ?us = "\<lambda>k. src_u c dz (reward ! k) (done ! k) (next_dist ! k)"
  have pl: "length (next_dist ! k) = ?n" if "k < ?B" for k
    using that sh by simp
  have g: "\<forall>i < ?n. \<exists>m. 0 \<le> m \<and> m < c_atom_size c \<and> b_row c dz (reward ! k) (done ! k) ! i = of_int m"
    if "k < ?B" for k using grid that by blast
  have shl: "\<forall>k<?B. length (?li k) = ?n \<and> length (?ls k) = ?n \<and> (\<forall>l \<in> set (?li k). 0 \<le> l \<and> l < int ?n)"
  proof (intro allI impI conjI)
    fix k assume k: "k < ?B"
    show "length (?li k) = ?n" by simp
    show "length (?ls k) = ?n" using pl[OF k] by simp
    show "\<forall>l \<in> set (?li k). 0 \<le> l \<and> l < int ?n"
      using on_grid_row(1)[OF g[OF k] small] by (simp only: n)
  qed
  have shu: "\<forall>k<?B. length (?ui k) = ?n \<and> length (?us k) = ?n \<and> (\<forall>l \<in> set (?ui k). 0 \<le> l \<and> l < int ?n)"
  proof (intro allI impI conjI)
    fix k assume k: "k < ?B"
    show "length (?ui k) = ?n" by simp
    show "length (?us k) = ?n" using pl[OF k] by simp
    show "\<forall>l \<in> set (?ui k). 0 \<le> l \<and> l < int ?n"
      using on_grid_row(2)[OF g[OF k] small] by (simp only: n)
  qed
  have zl: "\<forall>v \<in> set (concat (map ?ls [0..<?B])). v = 0"
  proof
    fix v assume "v \<in> set (concat (map ?ls [0..<?B]))"
    then obtain k where "k < ?B" "v \<in> set (?ls k)" by auto
    then show "v = 0" using on_grid_row(3)[OF g small] by blast
  qed
  have zu: "\<forall>v \<in> set (concat (map ?us [0..<?B])). v = 0"
  proof
    fix v assume "v \<in> set (concat (map ?us [0..<?B]))"
    then obtain k where "k < ?B" "v \<in> set (?us k)" by auto
    then show "v = 0" using on_grid_row(4)[OF g small] by blast
  qed
  have a1: "index_add (replicate (?B * ?n) 0)
              (concat (map (\<lambda>k. map (\<lambda>l. l + int k * int ?n) (?li k)) [0..<?B]))
              (concat (map ?ls [0..<?B])) = Inr (replicate (?B * ?n) 0)"
    by (rule index_add_zeros[OF rows_concat(1)[OF shl] rows_concat(2)[OF shl] zl])
  have a2: "index_add (replicate (?B * ?n) 0)
              (concat (map (\<lambda>k. map (\<lambda>l. l + int k * int ?n) (?ui k)) [0..<?B]))
              (concat (map ?us [0..<?B])) = Inr (replicate (?B * ?n) 0)"
    by (rule index_add_zeros[OF rows_concat(1)[OF shu] rows_concat(2)[OF shu] zu])
  show ?thesis
    by (simp add: proj_dist_unfold[OF dz nz sh n] a1 a2 unflatten_zeros)
qed

lemma proj_dist_ok:
  assumes dz: "delta_z c = Inr dz" and nz: "fl32 dz \<noteq> 0"
    and sh: "int (length reward) = c_batch_size c" "length done = length reward"
            "length next_dist = length reward"
            "\<forall>p \<in> set next_dist. length p = length (c_support c)"
    and n: "int (length (c_support c)) = c_atom_size c"
    and rng: "\<forall>k < length reward.
                (\<forall>l \<in> set (l_row c dz (reward ! k) (done ! k)). 0 \<le> l \<and> l < c_atom_size c) \<and>
                (\<forall>u \<in> set (u_row c dz (reward ! k) (done ! k)). 0 \<le> u \<and> u < c_atom_size c)"
  shows "\<exists>pd. proj_dist c reward done next_dist = Inr pd \<and> length pd = length reward \<and>
           (\<forall>p \<in> set pd. length p = length (c_support c))"
proof -
  let ?B = "length reward" and ?n = "length (c_support c)"
  let ?li = "\<lambda>k. l_row c dz (reward ! k) (done ! k)"
  let ?ui = "\<lambda>k. u_row c dz (reward ! k) (done ! k)"
  let ?ls = "\<lambda>k. src_l c dz (reward ! k) (done ! k) (next_dist ! k)"
  let ?us = "\<lambda>k. src_u c dz (reward ! k) (done ! k) (next_dist ! k)"
  have pl: "length (next_dist ! k) = ?n" if "k < ?B" for k
    using that sh by simp
  have shl: "\<forall>k<?B. length (?li k) = ?n \<and> length (?ls k) = ?n \<and> (\<forall>l \<in> set (?li k). 0 \<le> l \<and> l < int ?n)"
  proof (intro allI impI conjI)
    fix k assume k: "k < ?B"
    show "length (?li k) = ?n" by simp
    show "length (?ls k) = ?n" using pl[OF k] by simp
    show "\<forall>l \<in> set (?li k). 0 \<le> l \<and> l < int ?n"
      using rng k by (simp only: n) blast
  qed
  have shu: "\<forall>k<?B. length (?ui k) = ?n \<and> length (?us k) = ?n \<and> (\<forall>l \<in> set (?ui k). 0 \<le> l \<and> l < int ?n)"
  proof (intro allI impI conjI)
    fix k assume k: "k < ?B"
    show "length (?ui k) = ?n" by simp
    show "length (?us k) = ?n" using pl[OF k] by simp
    show "\<forall>l \<in> set (?ui k). 0 \<le> l \<and> l < int ?n"
      using rng k by (simp only: n) blast
  qed
  obtain acc1 where a1: "index_add (replicate (?B * ?n) 0)
              (concat (map (\<lambda>k. map (\<lambda>l. l + int k * int ?n) (?li k)) [0..<?B]))
              (concat (map ?ls [0..<?B])) = Inr acc1" "length acc1 = ?B * ?n"
    using index_add_ok[OF rows_concat(1)[OF shl], of "replicate (?B * ?n) 0"] rows_concat(2)[OF shl]
    by auto
  obtain acc2 where a2: "index_add acc1
              (concat (map (\<lambda>k. map (\<lambda>l. l + int k * int ?n) (?ui k)) [0..<?B]))
              (concat (map ?us [0..<?B])) = Inr acc2" "length acc2 = ?B * ?n"
    using index_add_ok[OF rows_concat(1)[OF shu], of acc1] rows_concat(2)[OF shu] a1(2)
    by auto
  have pd: "proj_dist c reward done next_dist = Inr (unflatten ?B ?n acc2)"
    by (simp add: proj_dist_unfold[OF dz nz sh n] a1 a2)
  have "length p = ?n" if "p \<in> set (unflatten ?B ?n acc2)" for p
  proof -
    from that obtain k where k: "k < ?B" "p = take ?n (drop (k * ?n) acc2)"
      by (auto simp: unflatten_def)
    have "Suc k * ?n \<le> ?B * ?n" using k(1) by (intro mult_le_mono1) simp
    then have "?n \<le> ?B * ?n - k * ?n" by simp
    then show ?thesis using k(2) a2(2) by (simp add: min_def)
  qed
  then have "\<forall>p \<in> set (unflatten ?B ?n acc2). length p = ?n" by blast
  moreover have "length (unflatten ?B ?n acc2) = ?B" by (simp add: unflatten_def)
  ultimately show ?thesis using pd by blast
qed

subsection \<open>The projection where an atom lands on the grid\<close>

lemma fl32_int_valued: "x = real_of_int m \<Longrightarrow> \<bar>m\<bar> < 2 ^ 24 \<Longrightarrow> fl32 x = x"
  using fl32_of_int[of m] by simp

lemma linspace_support51: "linspace 0 200 51 = Inr support51"
  by (simp add: linspace_def support51_def)

lemma length_support51 [simp]: "length support51 = 51"
  by (simp add: support51_def)

lemma length_one_hot [simp]: "length (one_hot n i) = n"
  by (simp add: one_hot_def)

lemma delta_z_c51: "delta_z (c51 g bsz) = Inr 4"
  by (simp add: delta_z_def c51_def)

lemma t_z_row_terminal:
  assumes "r = real_of_int m" "\<bar>m\<bar> < 2 ^ 24"
  shows "t_z_row c r 1 = replicate (length (c_support c)) (clamp r (fl32 (c_v_min c)) (fl32 (c_v_max c)))"
proof -
  have "fl32 r = r" using assms by (rule fl32_int_valued)
  then show ?thesis by (simp add: t_z_row_def map_replicate_const)
qed

lemma t_z_row_length [simp]: "length (t_z_row c r d) = length (c_support c)"
  by (simp add: t_z_row_def)

lemma b_row_nth:
  "i < length (c_support c) \<Longrightarrow>
   b_row c dz r d ! i = fl32 (fl32 (t_z_row c r d ! i - fl32 (c_v_min c)) / fl32 dz)"
  by (simp add: b_row_def)

lemma b_row_c51_nth:
  "i < 51 \<Longrightarrow> b_row (c51 g bsz) 4 r d ! i = fl32 (fl32 (t_z_row (c51 g bsz) r d ! i) / 4)"
  using b_row_nth[of i "c51 g bsz" 4 r d] by (simp add: c51_def)

lemma b_row_c51_running:
  assumes "i < 51"
  shows "b_row (c51 1 bsz) 4 4 0 ! i = real_of_int (if i \<le> 49 then int i + 1 else 50)"
proof -
  have z: "fl32 (4 * real i) = 4 * real i"
    using assms by (intro fl32_int_valued[of _ "4 * int i"]) simp_all
  have t: "fl32 (4 + 4 * real i) = 4 + 4 * real i"
    using assms by (intro fl32_int_valued[of _ "4 + 4 * int i"]) simp_all
  have tz: "t_z_row (c51 1 bsz) 4 0 ! i = (if i \<le> 49 then 4 + 4 * real i else 200)"
    using assms by (simp add: t_z_row_def c51_def support51_def z t clamp_def)
  show ?thesis
  proof (cases "i \<le> 49")
    case True
    have q: "(4 + 4 * real i) / 4 = real_of_int (int i + 1)" by simp
    have "fl32 (real_of_int (int i + 1)) = real_of_int (int i + 1)"
      using assms by (intro fl32_of_int) simp
    then show ?thesis using True tz t
      by (simp only: b_row_c51_nth[OF assms] if_True q)
  next
    case False
    have "fl32 (fl32 200 / 4) = real_of_int 50" by simp
    then show ?thesis using False tz
      by (simp only: b_row_c51_nth[OF assms] if_False)
  qed
qed

lemma b_row_c51_terminal:
  assumes "i < 51" "r = real_of_int m" "\<bar>m\<bar> < 2 ^ 24" "r \<le> 0 \<or> 200 \<le> r"
  shows "b_row (c51 g bsz) 4 r 1 ! i = real_of_int (if r \<le> 0 then 0 else 50)"
proof -
  have "t_z_row (c51 g bsz) r 1 = replicate 51 (clamp r 0 200)"
    using t_z_row_terminal[OF assms(2,3), of "c51 g bsz"] by (simp add: c51_def)
  then have "t_z_row (c51 g bsz) r 1 ! i = clamp r 0 200" using assms(1) by simp
  then show ?thesis using assms(4) by (auto simp: b_row_c51_nth[OF assms(1)] clamp_def)
qed

lemma proj_dist_c51_running:
  assumes "\<forall>p \<in> set next_dist. length p = 51" "length next_dist = 1"
  shows "proj_dist (c51 1 1) [4] [0] next_dist = Inr [replicate 51 0]"
proof -
  have grid: "\<forall>k < length [4::real]. \<forall>i < length (c_support (c51 1 1)).
        \<exists>m. 0 \<le> m \<and> m < c_atom_size (c51 1 1) \<and>
            b_row (c51 1 1) 4 ([4] ! k) ([0] ! k) ! i = of_int m"
  proof (intro allI impI)
    fix k i assume "k < length [4::real]" "i < length (c_support (c51 1 1))"
    then have k: "k = 0" and i: "i < 51" by (simp_all add: c51_def)
    show "\<exists>m. 0 \<le> m \<and> m < c_atom_size (c51 1 1) \<and>
            b_row (c51 1 1) 4 ([4] ! k) ([0] ! k) ! i = of_int m"
      using b_row_c51_running[OF i, of 1] k i
      by (intro exI[of _ "if i \<le> 49 then int i + 1 else 50"]) (simp add: c51_def)
  qed
  have "proj_dist (c51 1 1) [4] [0] next_dist
          = Inr (replicate (length [4::real]) (replicate (length (c_support (c51 1 1))) 0))"
    using assms by (intro proj_dist_on_grid[OF delta_z_c51 _ _ _ _ _ _ _ grid]) (simp_all add: c51_def)
  then show ?thesis by (simp add: c51_def)
qed

lemma proj_dist_c51_terminal:
  assumes sh: "length done = length reward" "length next_dist = length reward"
      "\<forall>p \<in> set next_dist. length p = 51"
    and d: "\<forall>k < length reward. done ! k = 1 \<and> (reward ! k \<le> 0 \<or> 200 \<le> reward ! k) \<and>
              (\<exists>m. reward ! k = real_of_int m \<and> \<bar>m\<bar> < 2 ^ 24)"
  shows "proj_dist (c51 g (int (length reward))) reward done next_dist
           = Inr (replicate (length reward) (replicate 51 0))"
proof -
  let ?c = "c51 g (int (length reward))"
  have grid: "\<forall>k < length reward. \<forall>i < length (c_support ?c).
        \<exists>m. 0 \<le> m \<and> m < c_atom_size ?c \<and> b_row ?c 4 (reward ! k) (done ! k) ! i = of_int m"
  proof (intro allI impI)
    fix k i assume k: "k < length reward" and "i < length (c_support ?c)"
    then have i: "i < 51" by (simp add: c51_def)
    from d k obtain m where m: "done ! k = 1" "reward ! k \<le> 0 \<or> 200 \<le> reward ! k"
       "reward ! k = real_of_int m" "\<bar>m\<bar> < 2 ^ 24" by blast
    show "\<exists>m. 0 \<le> m \<and> m < c_atom_size ?c \<and> b_row ?c 4 (reward ! k) (done ! k) ! i = of_int m"
      using b_row_c51_terminal[OF i m(3,4,2), of g "int (length reward)"] m(1)
      by (intro exI[of _ "if reward ! k \<le> 0 then 0 else 50"]) (simp add: c51_def)
  qed
  have "proj_dist ?c reward done next_dist
          = Inr (replicate (length reward) (replicate (length (c_support ?c)) 0))"
    using sh by (intro proj_dist_on_grid[OF delta_z_c51 _ _ _ _ _ _ _ grid]) (simp_all add: c51_def)
  then show ?thesis by (simp add: c51_def)
qed

text \<open>
  C1, on the code. In the scenario of the claim (\<open>v_min = 0\<close>, \<open>v_max = 200\<close>, 51 atoms,
  reward 4, \<open>gamma = 1\<close>, not done, all mass on atom 10) the fractional index of atom 10 is
  exactly 11, so \<open>l = u = 11\<close>, both weights \<open>u - b\<close> and \<open>b - l\<close> are 0, and the
  projected row is zero everywhere: no mass arrives at atom 11.
\<close>

theorem projection_on_grid_scenario:
  "b_row (c51 1 1) 4 4 0 ! 10 = 11 \<and> l_row (c51 1 1) 4 4 0 ! 10 = 11 \<and>
   u_row (c51 1 1) 4 4 0 ! 10 = 11 \<and>
   proj_dist (c51 1 1) [4] [0] [one_hot 51 10] = Inr [replicate 51 0]"
proof -
  have b: "b_row (c51 1 1) 4 4 0 ! 10 = 11"
    using b_row_c51_running[of 10 1] by simp
  have l: "l_row (c51 1 1) 4 4 0 ! 10 = 11" using b by (simp add: l_row_def c51_def)
  have u: "u_row (c51 1 1) 4 4 0 ! 10 = 11" using b by (simp add: u_row_def c51_def)
  have "proj_dist (c51 1 1) [4] [0] [one_hot 51 10] = Inr [replicate 51 0]"
    by (rule proj_dist_c51_running) simp_all
  with b l u show ?thesis by simp
qed

theorem projection_on_grid_scenario_witness:
  "proj_dist (c51 1 1) [4] [0] [one_hot 51 10] \<noteq> Inr [one_hot 51 11]"
proof
  assume "proj_dist (c51 1 1) [4] [0] [one_hot 51 10] = Inr [one_hot 51 11]"
  with projection_on_grid_scenario have "replicate 51 (0::real) = one_hot 51 11" by simp
  then have "replicate 51 (0::real) ! 11 = one_hot 51 11 ! 11" by simp
  then show False by (simp add: one_hot_def)
qed

text \<open>
  C2, on the code. With the default configuration, a terminal transition of reward 0
  and the uniform next-state distribution (which sums to 1), every atom is shifted onto
  atom 0 exactly and the projected row sums to 0.
\<close>

theorem projection_row_sum_terminal:
  "sum_list (replicate 51 (1 / 51 :: real)) = 1 \<and>
   (\<exists>pd. proj_dist (c51 (99 / 100) 1) [0] [1] [replicate 51 (1 / 51)] = Inr pd \<and>
      sum_list (pd ! 0) = 0)"
proof -
  have "proj_dist (c51 (99 / 100) (int (length [0::real]))) [0] [1] [replicate 51 (1 / 51)]
          = Inr (replicate (length [0::real]) (replicate 51 0))"
    by (rule proj_dist_c51_terminal) (simp_all add: exI[of _ 0])
  then show ?thesis by (simp add: sum_list_replicate)
qed

theorem projection_row_sum_terminal_witness:
  "\<exists>pd. proj_dist (c51 (99 / 100) 1) [0] [1] [replicate 51 (1 / 51)] = Inr pd \<and>
      sum_list (pd ! 0) \<noteq> 1"
  using projection_row_sum_terminal by auto

text \<open>
  C3, on the code. For a terminal transition of reward \<open>-1\<close> (below \<open>v_min\<close>) and one of
  reward 300 (above \<open>v_max\<close>), \<open>t_z\<close> is clamped to \<open>v_min\<close> and to \<open>v_max\<close>, and both
  projected rows are zero everywhere: atom 0 and atom 50 receive no mass.
\<close>

theorem projection_clamped_mass:
  "t_z_row (c51 (99 / 100) 2) (- 1) 1 = replicate 51 0 \<and>
   t_z_row (c51 (99 / 100) 2) 300 1 = replicate 51 200 \<and>
   proj_dist (c51 (99 / 100) 2) [- 1, 300] [1, 1] [replicate 51 (1 / 51), replicate 51 (1 / 51)]
     = Inr [replicate 51 0, replicate 51 0]"
proof -
  have t: "t_z_row (c51 (99 / 100) 2) (- 1) 1 = replicate 51 0"
          "t_z_row (c51 (99 / 100) 2) 300 1 = replicate 51 200"
    using t_z_row_terminal[of "- 1" "- 1" "c51 (99 / 100) 2"]
          t_z_row_terminal[of 300 300 "c51 (99 / 100) 2"]
    by (simp_all add: c51_def clamp_def)
  have d: "\<forall>k < length [- 1, 300 :: real]. [1, 1 :: real] ! k = 1 \<and>
              ([- 1, 300 :: real] ! k \<le> 0 \<or> 200 \<le> [- 1, 300 :: real] ! k) \<and>
              (\<exists>m. [- 1, 300 :: real] ! k = real_of_int m \<and> \<bar>m\<bar> < 2 ^ 24)"
  proof (intro allI impI)
    fix k assume "k < length [- 1, 300 :: real]"
    then consider "k = 0" | "k = 1" by fastforce
    then show "[1, 1 :: real] ! k = 1 \<and>
              ([- 1, 300 :: real] ! k \<le> 0 \<or> 200 \<le> [- 1, 300 :: real] ! k) \<and>
              (\<exists>m. [- 1, 300 :: real] ! k = real_of_int m \<and> \<bar>m\<bar> < 2 ^ 24)"
    proof cases
      case 1
      then show ?thesis by (simp add: exI[of _ "- 1"])
    next
      case 2
      then show ?thesis by (simp add: exI[of _ 300])
    qed
  qed
  have "proj_dist (c51 (99 / 100) (int (length [- 1, 300 :: real]))) [- 1, 300] [1, 1]
            [replicate 51 (1 / 51), replicate 51 (1 / 51)]
          = Inr (replicate (length [- 1, 300 :: real]) (replicate 51 0))"
    by (rule proj_dist_c51_terminal[OF _ _ _ d]) simp_all
  then have "proj_dist (c51 (99 / 100) 2) [- 1, 300] [1, 1]
            [replicate 51 (1 / 51), replicate 51 (1 / 51)] = Inr [replicate 51 0, replicate 51 0]"
    by (simp add: numeral_2_eq_2)
  with t show ?thesis by simp
qed

theorem projection_clamped_mass_witness:
  "\<exists>pd. proj_dist (c51 (99 / 100) 2) [- 1, 300] [1, 1]
           [replicate 51 (1 / 51), replicate 51 (1 / 51)] = Inr pd \<and>
        pd ! 0 ! 0 = 0 \<and> pd ! 1 ! 50 = 0"
  using projection_clamped_mass by simp

subsection \<open>The scatter-add at the upper boundary\<close>

lemma length_support100 [simp]: "length support100 = 100"
  by (simp add: support100_def)

lemma linspace_support100: "linspace 0 200 100 = Inr support100"
  by (simp add: linspace_def support100_def)

lemma delta_z_c100: "delta_z (c100 g bsz) = Inr dz100"
  by (simp add: delta_z_def c100_def dz100_def)
     (simp add: fl64_def fl_def expo_def pow2_def round_even_def Let_def)

lemma fl32_dz100: "fl32 dz100 = 8473341 / 2 ^ 22"
  by (simp add: dz100_def fl32_def fl_def expo_def pow2_def round_even_def Let_def)

lemma fl32_b100: "fl32 (200 / (8473341 / 2 ^ 22)) = 12976129 / 2 ^ 17"
  by (simp add: fl32_def fl_def expo_def pow2_def round_even_def Let_def)

lemma b_row_c100: "b_row (c100 g bsz) dz100 300 1 = replicate 100 (12976129 / 2 ^ 17)"
proof -
  have "t_z_row (c100 g bsz) 300 1 = replicate 100 200"
    using t_z_row_terminal[of 300 300 "c100 g bsz"] by (simp add: c100_def clamp_def)
  then show ?thesis
    using fl32_b100 by (simp add: b_row_def c100_def fl32_dz100)
qed

lemma l_row_c100: "l_row (c100 g bsz) dz100 300 1 = replicate 100 99"
  by (simp add: l_row_def b_row_c100)

lemma u_row_c100: "u_row (c100 g bsz) dz100 300 1 = replicate 100 100"
  by (simp add: u_row_def b_row_c100)

text \<open>
  C8, on the code. With 100 atoms on \<open>[0, 200]\<close>, \<open>delta_z\<close> is \<open>200 / 99\<close> rounded to
  float64 and then to float32, and a \<open>t_z\<close> clamped to \<open>v_max = 200\<close> divided by it is,
  in float32, \<open>99 + 2^-17\<close>: \<open>u = ceil b = 100 = atom_size\<close>. So \<open>u + offset\<close> of row 0
  is 100, outside row 0's slice \<open>[0, 100)\<close>: with one row the second \<open>index_add_\<close>
  raises IndexError, with two rows (offsets 0 and 100) the index is the first of row 1.
\<close>

theorem scatter_add_leaves_row:
  "delta_z (c100 (99 / 100) 1) = Inr dz100 \<and>
   t_z_row (c100 (99 / 100) 1) 300 1 ! 0 = 200 \<and>
   b_row (c100 (99 / 100) 1) dz100 300 1 ! 0 = 12976129 / 2 ^ 17 \<and>
   u_row (c100 (99 / 100) 1) dz100 300 1 ! 0 = 100 \<and>
   c_atom_size (c100 (99 / 100) 1) = 100 \<and>
   proj_dist (c100 (99 / 100) 1) [300] [1] [replicate 100 (1 / 100)] = Inl IndexError \<and>
   offset (c100 (99 / 100) 2) = Inr [0, 100] \<and>
   u_row (c100 (99 / 100) 2) dz100 300 1 ! 0 + 0 = 100"
proof -
  let ?c = "c100 (99 / 100) 1"
  have t: "t_z_row ?c 300 1 ! 0 = 200"
    using t_z_row_terminal[of 300 300 ?c] by (simp add: c100_def clamp_def)
  have nz: "fl32 dz100 \<noteq> 0" by (simp add: fl32_dz100)
  have un: "proj_dist ?c [300] [1] [replicate 100 (1 / 100)] =
     (case index_add (replicate 100 0) (l_row ?c dz100 300 1)
                     (src_l ?c dz100 300 1 (replicate 100 (1 / 100))) of
        Inl e \<Rightarrow> Inl e
      | Inr acc1 \<Rightarrow>
         (case index_add acc1 (u_row ?c dz100 300 1)
                 (src_u ?c dz100 300 1 (replicate 100 (1 / 100))) of
            Inl e \<Rightarrow> Inl e
          | Inr acc2 \<Rightarrow> Inr (unflatten 1 100 acc2)))"
    using proj_dist_unfold[OF delta_z_c100 nz, of "[300]" "99 / 100" 1 "[1]" "[replicate 100 (1 / 100)]"]
    by (simp add: c100_def cong: sum.case_cong)
  obtain acc1 where a1: "index_add (replicate 100 0) (l_row ?c dz100 300 1)
                     (src_l ?c dz100 300 1 (replicate 100 (1 / 100))) = Inr acc1"
     "length acc1 = 100"
    using index_add_ok[of "l_row ?c dz100 300 1" "src_l ?c dz100 300 1 (replicate 100 (1 / 100))"
                          "replicate 100 0"]
    by (auto simp: l_row_c100) (auto simp: c100_def)
  have "length (src_u ?c dz100 300 1 (replicate 100 (1 / 100))) = 100"
    by (simp add: c100_def)
  then obtain v vs where vs: "src_u ?c dz100 300 1 (replicate 100 (1 / 100)) = v # vs"
    by (cases "src_u ?c dz100 300 1 (replicate 100 (1 / 100))") auto
  have us: "u_row ?c dz100 300 1 = 100 # replicate 99 100"
    by (simp add: u_row_c100 replicate_Suc[symmetric] del: replicate_Suc)
  have "index_add acc1 (u_row ?c dz100 300 1)
          (src_u ?c dz100 300 1 (replicate 100 (1 / 100))) = Inl IndexError"
    using a1(2) by (simp add: us vs)
  then have pd: "proj_dist ?c [300] [1] [replicate 100 (1 / 100)] = Inl IndexError"
    by (simp add: un a1(1))
  have off: "offset (c100 (99 / 100) 2) = Inr [0, 100]"
    using offset_valid[of "c100 (99 / 100) 2"] by (simp add: c100_def upt_rec)
  have A: "c_atom_size ?c = 100" by (simp add: c100_def)
  show ?thesis
    using delta_z_c100 t pd off A by (simp add: b_row_c100 u_row_c100)
qed

theorem scatter_add_leaves_row_witness:
  "\<not> u_row (c100 (99 / 100) 1) dz100 300 1 ! 0 < c_atom_size (c100 (99 / 100) 1) \<and>
   isl (proj_dist (c100 (99 / 100) 1) [300] [1] [replicate 100 (1 / 100)])"
  using scatter_add_leaves_row by (simp add: c100_def)

subsection \<open>Training loop\<close>

lemma select_action_frame:
  "select_action a s rnd smp = Inr (act, a') \<Longrightarrow>
     a' = (if is_test a then a else a\<lparr> transition := [TObs s, TAct act] \<rparr>)"
  by (auto simp: select_action_def split: sum.splits if_splits)

lemma step_frame:
  "step a action resp = Inr (r, a') \<Longrightarrow>
     r = resp \<and> (\<exists>m t. a' = a\<lparr> transition := t, memory := m \<rparr>)"
  apply (cases resp)
  apply (auto simp: step_def Let_def split: sum.splits if_splits list.splits tval.splits)
  apply (rule exI[of _ "memory a"], rule exI[of _ "transition a"], simp)
  done

lemma update_model_frame:
  "update_model a perm np = Inr (loss, a') \<Longrightarrow> a' = a\<lparr> dqn := load_state_dict (dqn a) np \<rparr>"
  by (auto simp: update_model_def split: sum.splits prod.splits)


lemma train_frame_cases:
  assumes "train_frame pint s f = Inr s'"
  shows "(int (len (memory (t_agent s'))) < batch_size (t_agent s') \<and>
            epsilon (t_agent s') = epsilon (t_agent s) \<and>
            t_update_cnt s' = t_update_cnt s \<and> t_epsilons s' = t_epsilons s \<and>
            t_losses s' = t_losses s \<and>
            dqn (t_agent s') = dqn (t_agent s) \<and> dqn_target (t_agent s') = dqn_target (t_agent s))
         \<or> (int (len (memory (t_agent s'))) \<ge> batch_size (t_agent s') \<and>
            epsilon (t_agent s') = max (min_epsilon (t_agent s))
               (epsilon (t_agent s) - (max_epsilon (t_agent s) - min_epsilon (t_agent s))
                   * epsilon_decay (t_agent s)) \<and>
            t_update_cnt s' = t_update_cnt s + 1 \<and>
            t_epsilons s' = t_epsilons s @ [epsilon (t_agent s')] \<and>
            length (t_losses s') = length (t_losses s) + 1)"
    and "min_epsilon (t_agent s') = min_epsilon (t_agent s)"
    and "max_epsilon (t_agent s') = max_epsilon (t_agent s)"
    and "epsilon_decay (t_agent s') = epsilon_decay (t_agent s)"
    and "batch_size (t_agent s') = batch_size (t_agent s)"
proof -
  from assms obtain action a1 where sa: "select_action (t_agent s) (t_state s) (f_rnd f) (f_sampled f) = Inr (action, a1)"
    by (auto simp: train_frame_def split: sum.splits)
  from assms sa obtain r a2 where st: "step a1 action (f_resp f) = Inr (r, a2)"
    by (auto simp: train_frame_def split: sum.splits)
  from select_action_frame[OF sa] step_frame[OF st]
  obtain m t where a2: "a2 = (t_agent s)\<lparr> transition := t, memory := m \<rparr>" and r: "r = f_resp f"
    by (auto split: if_splits)
  obtain ns rw dn where resp: "f_resp f = (ns, rw, dn)" by (cases "f_resp f") auto
  show "(int (len (memory (t_agent s'))) < batch_size (t_agent s') \<and>
            epsilon (t_agent s') = epsilon (t_agent s) \<and>
            t_update_cnt s' = t_update_cnt s \<and> t_epsilons s' = t_epsilons s \<and>
            t_losses s' = t_losses s \<and>
            dqn (t_agent s') = dqn (t_agent s) \<and> dqn_target (t_agent s') = dqn_target (t_agent s))
         \<or> (int (len (memory (t_agent s'))) \<ge> batch_size (t_agent s') \<and>
            epsilon (t_agent s') = max (min_epsilon (t_agent s))
               (epsilon (t_agent s) - (max_epsilon (t_agent s) - min_epsilon (t_agent s))
                   * epsilon_decay (t_agent s)) \<and>
            t_update_cnt s' = t_update_cnt s + 1 \<and>
            t_epsilons s' = t_epsilons s @ [epsilon (t_agent s')] \<and>
            length (t_losses s') = length (t_losses s) + 1)"
  proof (cases "int (len m) \<ge> batch_size (t_agent s)")
    case False
    with assms sa st a2 r resp show ?thesis
      by (auto simp: train_frame_def Let_def split: if_splits sum.splits)
  next
    case True
    with assms sa st a2 r resp obtain loss a3 where
      um: "update_model a2 (f_perm f) (f_new_params f) = Inr (loss, a3)"
      by (auto simp: train_frame_def Let_def split: if_splits sum.splits)
    note a3 = update_model_frame[OF um]
    from assms sa st r resp um True a2 a3 show ?thesis
      by (auto simp: train_frame_def Let_def target_hard_update_def load_state_dict_def
          split: if_splits sum.splits)
  qed
  from assms sa st a2 r resp
  show "min_epsilon (t_agent s') = min_epsilon (t_agent s)"
    "max_epsilon (t_agent s') = max_epsilon (t_agent s)"
    "epsilon_decay (t_agent s') = epsilon_decay (t_agent s)"
    "batch_size (t_agent s') = batch_size (t_agent s)"
    by (auto simp: train_frame_def Let_def target_hard_update_def load_state_dict_def
          split: if_splits sum.splits dest!: update_model_frame)
qed

lemma train_frames_eps:
  assumes "train_frames pint s fs = Inr s'"
  shows "\<exists>new. t_epsilons s' = t_epsilons s @ new \<and>
           t_update_cnt s' = t_update_cnt s + int (length new) \<and>
           length (t_losses s') = length (t_losses s) + length new \<and>
           epsilon (t_agent s') = last (epsilon (t_agent s) # new) \<and>
           min_epsilon (t_agent s') = min_epsilon (t_agent s) \<and>
           max_epsilon (t_agent s') = max_epsilon (t_agent s) \<and>
           epsilon_decay (t_agent s') = epsilon_decay (t_agent s) \<and>
           (\<forall>i < length new. new ! i = max (min_epsilon (t_agent s))
               ((epsilon (t_agent s) # new) ! i
                  - (max_epsilon (t_agent s) - min_epsilon (t_agent s)) * epsilon_decay (t_agent s)))"
  using assms
proof (induction fs arbitrary: s)
  case Nil
  then show ?case by simp
next
  case (Cons f fs)
  then obtain s1 where s1: "train_frame pint s f = Inr s1" and rest: "train_frames pint s1 fs = Inr s'"
    by (auto split: sum.splits)
  note cfg = train_frame_cases(2-4)[OF s1]
  from Cons.IH[OF rest] obtain new where new: "t_epsilons s' = t_epsilons s1 @ new"
    "t_update_cnt s' = t_update_cnt s1 + int (length new)"
    "length (t_losses s') = length (t_losses s1) + length new"
    "epsilon (t_agent s') = last (epsilon (t_agent s1) # new)"
    "min_epsilon (t_agent s') = min_epsilon (t_agent s1)"
    "max_epsilon (t_agent s') = max_epsilon (t_agent s1)"
    "epsilon_decay (t_agent s') = epsilon_decay (t_agent s1)"
    "\<forall>i < length new. new ! i = max (min_epsilon (t_agent s1))
               ((epsilon (t_agent s1) # new) ! i
                  - (max_epsilon (t_agent s1) - min_epsilon (t_agent s1)) * epsilon_decay (t_agent s1))"
    by blast
  from train_frame_cases(1)[OF s1] show ?case
  proof (elim disjE conjE)
    assume "epsilon (t_agent s1) = epsilon (t_agent s)" "t_update_cnt s1 = t_update_cnt s"
      "t_epsilons s1 = t_epsilons s" "t_losses s1 = t_losses s"
    with new cfg show ?thesis by (intro exI[of _ new]) simp
  next
    assume a: "epsilon (t_agent s1) = max (min_epsilon (t_agent s))
               (epsilon (t_agent s) - (max_epsilon (t_agent s) - min_epsilon (t_agent s))
                   * epsilon_decay (t_agent s))"
      "t_update_cnt s1 = t_update_cnt s + 1"
      "t_epsilons s1 = t_epsilons s @ [epsilon (t_agent s1)]"
      "length (t_losses s1) = length (t_losses s) + 1"
    let ?new = "epsilon (t_agent s1) # new"
    have "?new ! i = max (min_epsilon (t_agent s))
               ((epsilon (t_agent s) # ?new) ! i
                  - (max_epsilon (t_agent s) - min_epsilon (t_agent s)) * epsilon_decay (t_agent s))"
      if "i < length ?new" for i
    proof (cases i)
      case 0
      then show ?thesis using a(1) by simp
    next
      case (Suc j)
      then show ?thesis using new(8) that cfg by simp
    qed
    with new cfg a show ?thesis by (intro exI[of _ ?new]) simp
  qed
qed

lemma eps_recurrence_monotone:
  fixes e0 m st :: real
  assumes rec: "\<forall>i < length es. es ! i = max m ((e0 # es) ! i - st)"
    and "m \<le> e0" "0 \<le> st"
  shows "\<forall>i < length es. es ! i \<le> (e0 # es) ! i \<and> m \<le> es ! i"
proof (intro allI impI)
  fix i assume i: "i < length es"
  have lo: "m \<le> (e0 # es) ! j" if "j \<le> length es" for j
  proof (cases j)
    case 0 then show ?thesis using assms(2) by simp
  next
    case (Suc k)
    then have "es ! k = max m ((e0 # es) ! k - st)" using rec that by simp
    then show ?thesis using Suc by simp
  qed
  have "es ! i = max m ((e0 # es) ! i - st)" using rec i by simp
  moreover have "m \<le> (e0 # es) ! i" using lo[of i] i by simp
  ultimately show "es ! i \<le> (e0 # es) ! i \<and> m \<le> es ! i" using assms(3) by auto
qed

text \<open>
  C7 (amended). For every run of \<open>train\<close> that returns: \<open>epsilons\<close> has one entry per
  model update (as many as \<open>update_cnt\<close> and as \<open>losses\<close>), each entry is the previous
  value of \<open>epsilon\<close> (at first the agent's) less
  \<open>(max_epsilon - min_epsilon) * epsilon_decay\<close>, floored at \<open>min_epsilon\<close>, and the last
  one is the agent's \<open>epsilon\<close> at the end. When the agent's \<open>epsilon\<close> starts at or
  above \<open>min_epsilon\<close> and the step \<open>(max_epsilon - min_epsilon) * epsilon_decay\<close> is
  not negative, the sequence never increases and never drops below \<open>min_epsilon\<close>. In
  every iteration that leaves fewer than \<open>batch_size\<close> transitions in the buffer,
  \<open>epsilon\<close>, \<open>update_cnt\<close>, \<open>epsilons\<close>, \<open>losses\<close> and both networks are unchanged.
\<close>

theorem epsilon_schedule:
  assumes run: "train a reset_obs frames pint = Inr s'"
  shows "int (length (t_epsilons s')) = t_update_cnt s' \<and>
         length (t_losses s') = length (t_epsilons s') \<and>
         epsilon (t_agent s') = last (epsilon a # t_epsilons s') \<and>
         (\<forall>i < length (t_epsilons s').
             t_epsilons s' ! i = max (min_epsilon a)
                ((epsilon a # t_epsilons s') ! i - (max_epsilon a - min_epsilon a) * epsilon_decay a)) \<and>
         (min_epsilon a \<le> epsilon a \<and> 0 \<le> (max_epsilon a - min_epsilon a) * epsilon_decay a \<longrightarrow>
            (\<forall>i < length (t_epsilons s').
                t_epsilons s' ! i \<le> (epsilon a # t_epsilons s') ! i \<and>
                min_epsilon a \<le> t_epsilons s' ! i)) \<and>
         (\<forall>q s f s1. train_frame q s f = Inr s1 \<longrightarrow>
            int (len (memory (t_agent s1))) < batch_size (t_agent s1) \<longrightarrow>
              epsilon (t_agent s1) = epsilon (t_agent s) \<and>
              t_update_cnt s1 = t_update_cnt s \<and> t_epsilons s1 = t_epsilons s \<and>
              t_losses s1 = t_losses s \<and> dqn (t_agent s1) = dqn (t_agent s) \<and>
              dqn_target (t_agent s1) = dqn_target (t_agent s))"
proof -
  let ?s0 = "\<lparr> t_agent = a\<lparr> is_test := False \<rparr>, t_state = reset_obs, t_update_cnt = 0,
                t_epsilons = [], t_losses = [], t_scores = [], t_score = 0, t_mov_avg = [] \<rparr>"
  from run have "train_frames pint ?s0 frames = Inr s'" by (simp add: train_def)
  from train_frames_eps[OF this] obtain new where new: "t_epsilons s' = new"
    "t_update_cnt s' = int (length new)" "length (t_losses s') = length new"
    "epsilon (t_agent s') = last (epsilon a # new)"
    "\<forall>i < length new. new ! i = max (min_epsilon a)
               ((epsilon a # new) ! i - (max_epsilon a - min_epsilon a) * epsilon_decay a)"
    by auto
  have mono: "\<forall>i < length new. new ! i \<le> (epsilon a # new) ! i \<and> min_epsilon a \<le> new ! i"
    if "min_epsilon a \<le> epsilon a" "0 \<le> (max_epsilon a - min_epsilon a) * epsilon_decay a"
    using eps_recurrence_monotone[OF new(5) that] .
  have gate: "epsilon (t_agent s1) = epsilon (t_agent s) \<and>
              t_update_cnt s1 = t_update_cnt s \<and> t_epsilons s1 = t_epsilons s \<and>
              t_losses s1 = t_losses s \<and> dqn (t_agent s1) = dqn (t_agent s) \<and>
              dqn_target (t_agent s1) = dqn_target (t_agent s)"
    if "train_frame q s f = Inr s1" "int (len (memory (t_agent s1))) < batch_size (t_agent s1)"
    for q s f s1
    using train_frame_cases(1)[OF that(1)] that(2) by auto
  show ?thesis using new mono gate by (simp only:) blast
qed

lemma layers_zero_sd: "length x = i \<Longrightarrow> layers (zero_sd i n) x = Inr (replicate n 0)"
  by (simp add: layers_def zero_sd_def Linear_def ReLU_def zip_replicate sum_list_replicate)

lemma unflatten_2_2: "unflatten 2 2 (replicate 4 (0::real)) = [[0, 0], [0, 0]]"
  by (simp add: unflatten_def eval_nat_numeral)

lemma ex_net_dist: "length x = 1 \<Longrightarrow> Network_dist ex_net [x] = Inr [[[1 / 2, 1 / 2], [1 / 2, 1 / 2]]]"
  by (simp add: Network_dist_def ex_net_def layers_zero_sd unflatten_2_2 softmax_def)

lemma ex_net_forward: "length x = 1 \<Longrightarrow> Network_forward ex_net [x] = Inr [[100, 100]]"
  by (simp add: Network_forward_def ex_net_dist) (simp add: ex_net_def)

lemma ex_proj:
  assumes "batch_size a = 1" "v_min a = 0" "v_max a = 200" "atom_size a = 2"
    "support a = [0, 200]"
  shows "\<exists>p. proj_dist (agent_cfg a) [1] [1] [[1 / 2, 1 / 2]] = Inr [p] \<and> length p = 2"
proof -
  let ?c = "agent_cfg a"
  have c: "?c = \<lparr> c_v_min = 0, c_v_max = 200, c_atom_size = 2, c_gamma = gamma a,
                  c_support = [0, 200], c_batch_size = 1 \<rparr>"
    using assms by (simp add: agent_cfg_def)
  have dz: "delta_z ?c = Inr 200" by (simp add: delta_z_def c)
  have nz: "fl32 200 \<noteq> 0" by simp
  have t: "t_z_row ?c 1 1 = [1, 1]"
    using t_z_row_terminal[of 1 1 ?c] by (simp add: c clamp_def)
  have b: "b_row ?c 200 1 1 = [5368709 / 2 ^ 30, 5368709 / 2 ^ 30]"
    using t by (simp add: b_row_def c fl32_1_200)
  have l: "l_row ?c 200 1 1 = [0, 0]" by (simp add: l_row_def b)
  have u: "u_row ?c 200 1 1 = [1, 1]" by (simp add: u_row_def b)
  have rng: "\<forall>k < length [1::real].
                (\<forall>l \<in> set (l_row ?c 200 ([1] ! k) ([1] ! k)). 0 \<le> l \<and> l < c_atom_size ?c) \<and>
                (\<forall>u \<in> set (u_row ?c 200 ([1] ! k) ([1] ! k)). 0 \<le> u \<and> u < c_atom_size ?c)"
    by (simp add: l u) (simp add: c)
  have "\<exists>pd. proj_dist ?c [1] [1] [[1 / 2, 1 / 2]] = Inr pd \<and> length pd = length [1::real] \<and>
           (\<forall>p \<in> set pd. length p = length (c_support ?c))"
    by (rule proj_dist_ok[OF dz nz _ _ _ _ _ rng]) (simp_all add: c)
  then obtain pd where pd: "proj_dist ?c [1] [1] [[1 / 2, 1 / 2]] = Inr pd" "length pd = 1"
     "\<forall>p \<in> set pd. length p = 2"
    by (auto simp: c)
  then obtain p where "pd = [p]" "length p = 2" by (cases pd) auto
  with pd(1) show ?thesis by blast
qed

lemma ex_loss:
  assumes "dqn a = ex_net" "dqn_target a = ex_net" "batch_size a = 1" "v_min a = 0" "v_max a = 200"
    "atom_size a = 2" "support a = [0, 200]"
  shows "\<exists>loss. compute_dqn_loss a \<lparr> b_obs = [[2]], b_next_obs = [[3]], b_acts = [1],
                      b_rews = [1], b_done = [1] \<rparr> = Inr loss"
proof -
  have dz: "delta_z (agent_cfg a) = Inr 200" using assms by (simp add: delta_z_def agent_cfg_def)
  from ex_proj[OF assms(3-7)] obtain p where
    p: "proj_dist (agent_cfg a) [1] [1] [[1 / 2, 1 / 2]] = Inr [p]" "length p = 2" by blast
  show ?thesis
    using assms p
    by (simp add: compute_dqn_loss_def dz ex_net_forward ex_net_dist argmax_def pick_rows_def
        long_def)
qed

lemma ex_train_run:
  "\<exists>s'. train (ex_agent\<lparr> epsilon_decay := d \<rparr>) [0] [ex_frame] 200 = Inr s' \<and>
        t_epsilons s' = [max (1 / 10) (1 - 9 / 10 * d)] \<and> t_update_cnt s' = 1"
proof -
  let ?a0 = "ex_agent\<lparr> epsilon_decay := d, is_test := False \<rparr>"
  let ?a1 = "?a0\<lparr> transition := [TObs [0], TAct 1] \<rparr>"
  have sa: "select_action ?a0 [0] (1 / 2) 1 = Inr (1, ?a1)"
    by (simp add: select_action_def ex_agent_def)
  let ?mem = "ex_rb\<lparr> obs_buf := [[0], [2]], next_obs_buf := [[1], [3]], acts_buf := [1, 1],
                       rews_buf := [1, 1], done_buf := [0, 1], ptr := 1, size := 2 \<rparr>"
  let ?a2 = "?a1\<lparr> transition := [TObs [0], TAct 1, TRew 1, TObs [1], TDone False],
                   memory := ?mem \<rparr>"
  have st: "step ?a1 1 ([1], 1, False) = Inr (([1], 1, False), ?a2)"
    by (simp add: step_def store_def assign_row_def ex_agent_def ex_rb_def)
  have sb: "sample_batch ?mem [1, 0] = Inr ([1], \<lparr> b_obs = [[2]], b_next_obs = [[3]], b_acts = [1],
                      b_rews = [1], b_done = [1] \<rparr>)"
    by (simp add: sample_batch_def random_choice_def take_rows_def ex_rb_def)
  obtain loss where loss: "compute_dqn_loss ?a2 \<lparr> b_obs = [[2]], b_next_obs = [[3]], b_acts = [1],
                      b_rews = [1], b_done = [1] \<rparr> = Inr loss"
    using ex_loss[of ?a2] by (auto simp: ex_agent_def)
  let ?a3 = "?a2\<lparr> dqn := load_state_dict (dqn ?a2) (zero_sd 1 4) \<rparr>"
  have um: "update_model ?a2 [1, 0] (zero_sd 1 4) = Inr (loss, ?a3)"
    using sb loss by (simp add: update_model_def)
  let ?s0 = "\<lparr> t_agent = ?a0, t_state = [0], t_update_cnt = 0,
                t_epsilons = [], t_losses = [], t_scores = [], t_score = 0, t_mov_avg = [] \<rparr>"
  obtain s' where s': "train_frame 200 ?s0 ex_frame = Inr s'"
    using sa st um
    by (simp add: train_frame_def ex_frame_def Let_def len_def) (simp add: ex_agent_def ex_rb_def)
  then have run: "train (ex_agent\<lparr> epsilon_decay := d \<rparr>) [0] [ex_frame] 200 = Inr s'"
    by (simp add: train_def)
  have ge: "int (len (memory (t_agent s'))) \<ge> batch_size (t_agent s')"
    using s' sa st um
    by (auto simp: train_frame_def ex_frame_def Let_def len_def ex_agent_def ex_rb_def
        target_hard_update_def load_state_dict_def split: if_splits)
  from train_frame_cases(1)[OF s'] ge
  have "epsilon (t_agent s') = max (min_epsilon ?a0) (epsilon ?a0 - (max_epsilon ?a0 - min_epsilon ?a0)
                   * epsilon_decay ?a0)"
    "t_update_cnt s' = 1" "t_epsilons s' = [epsilon (t_agent s')]"
    by auto
  then have "t_epsilons s' = [max (1 / 10) (1 - 9 / 10 * d)]" "t_update_cnt s' = 1"
    by (simp_all add: ex_agent_def)
  with run show ?thesis by blast
qed

text \<open>
  C7 as stated fails on the code: nothing checks the sign of \<open>epsilon_decay\<close>, and with
  \<open>epsilon_decay = -1/2000\<close> the first update of a run raises \<open>epsilon\<close> from 1 to
  \<open>20009/20000\<close>.
\<close>

theorem epsilon_negative_decay_counterexample:
  "map_sum id t_epsilons (train (ex_agent\<lparr> epsilon_decay := - (1 / 2000) \<rparr>) [0] [ex_frame] 200)
     = Inr [20009 / 20000] \<and>
   epsilon (ex_agent\<lparr> epsilon_decay := - (1 / 2000) \<rparr>) = 1 \<and> (1::real) < 20009 / 20000"
proof -
  obtain s' where "train (ex_agent\<lparr> epsilon_decay := - (1 / 2000) \<rparr>) [0] [ex_frame] 200 = Inr s'"
     "t_epsilons s' = [max (1 / 10) (1 - 9 / 10 * (- (1 / 2000)))]"
    using ex_train_run[of "- (1 / 2000)"] by blast
  then show ?thesis by (simp add: ex_agent_def)
qed

theorem epsilon_schedule_witness:
  "(\<exists>s'. train ex_agent [0] [ex_frame] 200 = Inr s' \<and>
      min_epsilon ex_agent \<le> epsilon ex_agent \<and>
      0 \<le> (max_epsilon ex_agent - min_epsilon ex_agent) * epsilon_decay ex_agent \<and>
      t_update_cnt s' = 1 \<and> t_epsilons s' = [19991 / 20000] \<and>
      epsilon (t_agent s') = 19991 / 20000 \<and>
      t_epsilons s' ! 0 \<le> epsilon ex_agent \<and> min_epsilon ex_agent \<le> t_epsilons s' ! 0) \<and>
   (\<exists>s1. train_frame 200 \<lparr> t_agent = ex_agent\<lparr> is_test := False, batch_size := 3 \<rparr>, t_state = [0],
                        t_update_cnt = 0, t_epsilons = [], t_losses = [], t_scores = [],
                        t_score = 0, t_mov_avg = [] \<rparr> ex_frame = Inr s1 \<and>
      int (len (memory (t_agent s1))) < batch_size (t_agent s1) \<and>
      epsilon (t_agent s1) = 1 \<and> t_update_cnt s1 = 0 \<and> t_epsilons s1 = [] \<and> t_losses s1 = [])"
proof -
  have same: "ex_agent\<lparr> epsilon_decay := 1 / 2000 \<rparr> = ex_agent" by (simp add: ex_agent_def)
  obtain s' where run: "train ex_agent [0] [ex_frame] 200 = Inr s'"
    and e: "t_epsilons s' = [19991 / 20000]" and cnt: "t_update_cnt s' = 1"
    using ex_train_run[of "1 / 2000"] by (auto simp: same)
  have h1: "min_epsilon ex_agent \<le> epsilon ex_agent" by (simp add: ex_agent_def)
  have h2: "0 \<le> (max_epsilon ex_agent - min_epsilon ex_agent) * epsilon_decay ex_agent"
    by (simp add: ex_agent_def)
  note T = epsilon_schedule[OF run]
  have last: "epsilon (t_agent s') = 19991 / 20000" using T e by simp
  have mono: "t_epsilons s' ! 0 \<le> epsilon ex_agent \<and> min_epsilon ex_agent \<le> t_epsilons s' ! 0"
    using T h1 h2 e by simp
  have part1: "\<exists>s'. train ex_agent [0] [ex_frame] 200 = Inr s' \<and>
      min_epsilon ex_agent \<le> epsilon ex_agent \<and>
      0 \<le> (max_epsilon ex_agent - min_epsilon ex_agent) * epsilon_decay ex_agent \<and>
      t_update_cnt s' = 1 \<and> t_epsilons s' = [19991 / 20000] \<and>
      epsilon (t_agent s') = 19991 / 20000 \<and>
      t_epsilons s' ! 0 \<le> epsilon ex_agent \<and> min_epsilon ex_agent \<le> t_epsilons s' ! 0"
    using run h1 h2 cnt e last mono by blast
  let ?mem = "ex_rb\<lparr> obs_buf := [[0], [2]], next_obs_buf := [[1], [3]], acts_buf := [1, 1],
                       rews_buf := [1, 1], done_buf := [0, 1], ptr := 1, size := 2 \<rparr>"
  let ?b0 = "ex_agent\<lparr> is_test := False, batch_size := 3 \<rparr>"
  let ?b1 = "?b0\<lparr> transition := [TObs [0], TAct 1] \<rparr>"
  let ?b2 = "?b1\<lparr> transition := [TObs [0], TAct 1, TRew 1, TObs [1], TDone False],
                   memory := ?mem \<rparr>"
  let ?t0 = "\<lparr> t_agent = ?b0, t_state = [0], t_update_cnt = 0,
                t_epsilons = [], t_losses = [], t_scores = [], t_score = 0, t_mov_avg = [] \<rparr>"
  have sa': "select_action ?b0 [0] (1 / 2) 1 = Inr (1, ?b1)"
    by (simp add: select_action_def ex_agent_def)
  have st': "step ?b1 1 ([1], 1, False) = Inr (([1], 1, False), ?b2)"
    by (simp add: step_def store_def assign_row_def ex_agent_def ex_rb_def)
  obtain s1 where s1: "train_frame 200 ?t0 ex_frame = Inr s1"
     and lt: "int (len (memory (t_agent s1))) < batch_size (t_agent s1)"
    using sa' st'
    by (simp add: train_frame_def ex_frame_def Let_def len_def)
  from T s1 lt
  have "epsilon (t_agent s1) = epsilon (t_agent ?t0) \<and> t_update_cnt s1 = t_update_cnt ?t0 \<and>
        t_epsilons s1 = t_epsilons ?t0 \<and> t_losses s1 = t_losses ?t0"
    by blast
  then have "epsilon (t_agent s1) = 1 \<and> t_update_cnt s1 = 0 \<and> t_epsilons s1 = [] \<and> t_losses s1 = []"
    by (simp add: ex_agent_def)
  with s1 lt part1 show ?thesis by blast
qed

subsection \<open>What \<open>__init__\<close> establishes and the loop keeps\<close>

text \<open>
  The hypotheses of the theorems above hold for the agents the constructor builds:
  a buffer of positive capacity is well formed with rows of width \<open>obs_dim\<close>, the
  support has \<open>atom_size\<close> entries, and the two networks keep one architecture
  through every iteration of the training loop.
\<close>

lemma linspace_length: "linspace a b n = Inr xs \<Longrightarrow> length xs = nat n"
  by (auto simp: linspace_def split: if_splits)

lemma init_memory_wf:
  assumes "DQNAgent_init od ad ms bs tu ed mx mn g vmin vmax atoms sd1 sd2 = Inr a" and "0 < ms"
  shows "rb_wf (memory a) \<and> rb_rows od (memory a) \<and> rb_batch_size (memory a) = batch_size a"
  using assms
  by (auto simp: DQNAgent_init_def ReplayBuffer_init_def rb_wf_def rb_rows_def Let_def
      split: sum.splits if_splits)

lemma train_frame_same_arch:
  assumes "train_frame q s f = Inr s'" and "same_arch (t_agent s)"
  shows "same_arch (t_agent s')"
proof -
  from assms(1) obtain action a1 where sa: "select_action (t_agent s) (t_state s) (f_rnd f) (f_sampled f) = Inr (action, a1)"
    by (auto simp: train_frame_def split: sum.splits)
  from assms(1) sa obtain r a2 where st: "step a1 action (f_resp f) = Inr (r, a2)"
    by (auto simp: train_frame_def split: sum.splits)
  from select_action_frame[OF sa] step_frame[OF st]
  obtain m t where a2: "a2 = (t_agent s)\<lparr> transition := t, memory := m \<rparr>" and r: "r = f_resp f"
    by (auto split: if_splits)
  obtain ns rw dn where resp: "f_resp f = (ns, rw, dn)" by (cases "f_resp f") auto
  from assms sa st a2 r resp show ?thesis
    by (auto simp: train_frame_def Let_def target_hard_update_def load_state_dict_def same_arch_def
          split: if_splits sum.splits dest!: update_model_frame)
qed

end
